theory Spec2Isabelle
  imports Main
begin

section \<open>Output values: JSON trees\<close>

text \<open>
  Every value the generators build is a plain JavaScript object literal that is later
  serialised as JSON. An object is an association list in insertion order; assigning an
  existing property replaces its value in place, assigning a new one appends it (the
  order of string keys of a JavaScript object).
\<close>

datatype json =
    JNull
  | JBool bool
  | JNum int
  | JStr string
  | JArr "json list"
  | JObj "(string \<times> json) list"

text \<open>JavaScript truthiness of a value read from the input document.\<close>

fun truthy :: "json \<Rightarrow> bool" where
  "truthy JNull = False"
| "truthy (JBool b) = b"
| "truthy (JNum n) = (n \<noteq> 0)"
| "truthy (JStr s) = (s \<noteq> [])"
| "truthy (JArr xs) = True"
| "truthy (JObj kvs) = True"

text \<open>\<open>obj[k] = v\<close>\<close>

fun setProp :: "(string \<times> 'v) list \<Rightarrow> string \<Rightarrow> 'v \<Rightarrow> (string \<times> 'v) list" where
  "setProp [] k v = [(k, v)]"
| "setProp ((k', v') # kvs) k v =
     (if k' = k then (k, v) # kvs else (k', v') # setProp kvs k v)"

text \<open>\<open>Object.assign(target, src)\<close>, and the spread \<open>{...target, ...src}\<close>\<close>

definition objectAssign :: "(string \<times> 'v) list \<Rightarrow> (string \<times> 'v) list \<Rightarrow> (string \<times> 'v) list" where
  "objectAssign target src = foldl (\<lambda>acc (k, v). setProp acc k v) target src"

text \<open>An object literal \<open>{k1: v1, ..., kn: vn}\<close>: the properties are defined left to right.\<close>

definition objectLiteral :: "(string \<times> 'v) list \<Rightarrow> (string \<times> 'v) list" where
  "objectLiteral entries = objectAssign [] entries"

text \<open>\<open>delete obj[k]\<close>\<close>

definition deleteProp :: "(string \<times> 'v) list \<Rightarrow> string \<Rightarrow> (string \<times> 'v) list" where
  "deleteProp obj k = filter (\<lambda>(k', v). k' \<noteq> k) obj"

section \<open>Input: the Knack application schema (types/knackSchema.ts)\<close>

text \<open>
  Only the properties that the generators read are kept. An optional property is an
  \<open>option\<close>; \<open>None\<close> stands for both \<open>undefined\<close> and \<open>null\<close>, which no generator
  tells apart.
\<close>

record KnackRelationship =
  rel_object :: string

record KnackFormat =
  fmt_options :: "json option"
  fmt_default :: "json option"

record KnackField =
  f_key :: string
  f_name :: string
  f_type :: string
  f_required :: bool
  f_format :: "KnackFormat option"
  f_relationship :: "KnackRelationship option"

text \<open>The enumeration \<open>KnackFieldType\<close>.\<close>

definition KnackFieldType :: "string list" where
  "KnackFieldType =
     [''short_text'', ''name'', ''email'', ''password'', ''auto_increment'',
      ''paragraph_text'', ''number'', ''currency'', ''date_time'', ''multiple_choice'',
      ''connection'', ''address'', ''user_roles'', ''file'', ''image'', ''boolean'',
      ''phone'', ''signature'', ''equation'', ''timer'']"

section \<open>utils/fieldTypeMapper.ts\<close>

definition baseSchema :: "KnackField \<Rightarrow> (string \<times> json) list" where
  "baseSchema field =
     [(''title'', JStr (f_name field)),
      (''description'', JStr (f_name field @ '' field''))]"

text \<open>\<open>...(c && {k: v})\<close>: spreads one property when \<open>c\<close> holds and nothing otherwise.\<close>

definition spreadIf :: "bool \<Rightarrow> (string \<times> json) list \<Rightarrow> (string \<times> json) list" where
  "spreadIf c entries = (if c then entries else [])"

definition optTruthy :: "json option \<Rightarrow> bool" where
  "optTruthy x = (case x of None \<Rightarrow> False | Some v \<Rightarrow> truthy v)"

definition mapFieldTypeToSchema :: "KnackField \<Rightarrow> (string \<times> json) list" where
  "mapFieldTypeToSchema field =
    (let t = f_type field in
     if t \<in> set [''short_text'', ''name'', ''email'', ''password'', ''paragraph_text'',
                  ''phone'', ''address''] then
       objectLiteral (baseSchema field @ [(''type'', JStr ''string'')]
         @ spreadIf (t = ''email'') [(''format'', JStr ''email'')]
         @ spreadIf (t = ''paragraph_text'') [(''maxLength'', JNum 100000)])
     else if t = ''number'' then
       objectLiteral (baseSchema field @ [(''type'', JStr ''number'')])
     else if t = ''auto_increment'' then
       objectLiteral (baseSchema field @ [(''type'', JStr ''integer''), (''readOnly'', JBool True)])
     else if t = ''currency'' then
       objectLiteral (baseSchema field @ [(''type'', JStr ''number''), (''format'', JStr ''float'')])
     else if t = ''date_time'' then
       objectLiteral (baseSchema field @ [(''type'', JStr ''string''), (''format'', JStr ''date-time'')])
     else if t = ''multiple_choice'' then
       (case f_format field of
          None \<Rightarrow> objectLiteral (baseSchema field @ [(''type'', JStr ''string'')])
        | Some fmt \<Rightarrow>
            (if optTruthy (fmt_options fmt) then
               objectLiteral (baseSchema field
                 @ [(''type'', JStr ''string''), (''enum'', the (fmt_options fmt))]
                 @ spreadIf (optTruthy (fmt_default fmt)) [(''default'', the (fmt_default fmt))])
             else objectLiteral (baseSchema field @ [(''type'', JStr ''string'')])))
     else if t = ''boolean'' then
       objectLiteral (baseSchema field @ [(''type'', JStr ''boolean'')])
     else if t = ''connection'' then
       (case f_relationship field of
          Some rel \<Rightarrow>
            objectLiteral (baseSchema field
              @ [(''type'', JStr ''string''),
                 (''description'', JStr (''Reference to a '' @ f_name field @ '' object'')),
                 (''format'', JStr ''uuid'')])
        | None \<Rightarrow> objectLiteral (baseSchema field @ [(''type'', JStr ''string'')]))
     else if t = ''file'' \<or> t = ''image'' then
       objectLiteral (baseSchema field
         @ [(''type'', JStr ''string''), (''format'', JStr ''uri''),
            (''description'', JStr (''URL to '' @ t))])
     else if t = ''signature'' then
       objectLiteral (baseSchema field
         @ [(''type'', JStr ''string''), (''format'', JStr ''uri''),
            (''description'', JStr ''URL to signature image'')])
     else if t = ''user_roles'' then
       objectLiteral (baseSchema field
         @ [(''type'', JStr ''array''), (''items'', JObj [(''type'', JStr ''string'')]),
            (''description'', JStr ''List of user roles'')])
     else if t = ''equation'' then
       objectLiteral (baseSchema field
         @ [(''type'', JStr ''number''), (''readOnly'', JBool True),
            (''description'', JStr ''Calculated field value'')])
     else if t = ''timer'' then
       objectLiteral (baseSchema field
         @ [(''type'', JStr ''number''), (''description'', JStr ''Timer value in seconds'')])
     else
       objectLiteral (baseSchema field
         @ [(''type'', JStr ''string''), (''description'', JStr (''Unknown field type: '' @ t))]))"

definition shouldIncludeField :: "KnackField \<Rightarrow> bool" where
  "shouldIncludeField field = True"

record FieldRef =
  fr_key :: string

record KnackColumnField =
  cf_key :: "string option"

text \<open>An entry of \<open>KnackColumnGroup.columns\<close>: one field, or an array of fields.\<close>

datatype KnackColumnData =
    SingleField KnackColumnField
  | FieldArray "KnackColumnField list"

record KnackColumnGroup =
  cg_columns :: "KnackColumnData list option"

record KnackViewColumn =
  c_type :: string
  c_field :: "FieldRef option"
  c_groups :: "KnackColumnGroup list option"

record KnackViewInput =
  i_key :: "string option"
  i_field :: "FieldRef option"

record KnackViewField =
  vf_field :: "string option"
  vf_key :: "string option"

record KnackViewGroupColumn =
  gc_inputs :: "KnackViewInput list option"
  gc_fields :: "KnackViewField list option"

record KnackViewGroup =
  g_columns :: "KnackViewGroupColumn list option"

record KnackViewResults =
  r_columns :: "KnackViewColumn list option"

record KnackSource =
  src_object :: string
  src_authenticated_user :: "bool option"

text \<open>\<open>v_action\<close> is the property \<open>action\<close> that viewsToPaths.ts reads through \<open>view as any\<close>.\<close>

record KnackView =
  v_key :: string
  v_name :: string
  v_type :: string
  v_title :: "string option"
  v_description :: "string option"
  v_source :: "KnackSource option"
  v_results :: "KnackViewResults option"
  v_columns :: "KnackViewColumn list option"
  v_groups :: "KnackViewGroup list option"
  v_allowed_profiles :: "string list option"
  v_limit_profile_access :: "bool option"
  v_action :: "string option"

record KnackScene =
  s_key :: string
  s_name :: string
  s_slug :: string
  s_views :: "KnackView list"
  s_parent :: "string option"
  s_type :: "string option"
  s_allowed_profiles :: "string list option"
  s_limit_profile_access :: "bool option"
  s_authenticated :: "bool option"

record KnackObject =
  o_key :: string
  o_name :: string
  o_fields :: "KnackField list"
  o_singular :: string
  o_plural :: string

record KnackApplication =
  a_name :: string
  a_objects :: "KnackObject list"
  a_scenes :: "KnackScene list"

record KnackSchema =
  application :: KnackApplication

section \<open>Strings\<close>

text \<open>
  \<open>String.prototype.toLowerCase\<close> on the ASCII letters (other characters are left as
  they are), and \<open>String.prototype.includes\<close>.
\<close>

definition toLowerChar :: "char \<Rightarrow> char" where
  "toLowerChar c =
     (case map_of (zip ''ABCDEFGHIJKLMNOPQRSTUVWXYZ'' ''abcdefghijklmnopqrstuvwxyz'') c of
        Some l \<Rightarrow> l
      | None \<Rightarrow> c)"

definition toLowerCase :: "string \<Rightarrow> string" where
  "toLowerCase s = map toLowerChar s"

fun stringIncludes :: "string \<Rightarrow> string \<Rightarrow> bool" where
  "stringIncludes [] kw = (kw = [])"
| "stringIncludes (c # cs) kw = (take (length kw) (c # cs) = kw \<or> stringIncludes cs kw)"

text \<open>\<open>x || ""\<close> for an optional string\<close>

definition orEmpty :: "string option \<Rightarrow> string" where
  "orEmpty x = (case x of None \<Rightarrow> [] | Some s \<Rightarrow> s)"

text \<open>Truthiness of an optional string: present and not empty.\<close>

definition strTruthy :: "string option \<Rightarrow> bool" where
  "strTruthy x = (case x of None \<Rightarrow> False | Some s \<Rightarrow> s \<noteq> [])"

section \<open>utils/viewSecurityAnalyzer.ts\<close>

datatype ViewSecurity = PUBLIC | AUTHENTICATED

definition securityKeywords :: "string list" where
  "securityKeywords =
     [''profile'', ''account'', ''dashboard'', ''admin'', ''secure'', ''private'']"

definition nonEmptyProfiles :: "string list option \<Rightarrow> bool" where
  "nonEmptyProfiles ps = (case ps of None \<Rightarrow> False | Some xs \<Rightarrow> length xs > 0)"

definition checkViewSecurity :: "KnackView \<Rightarrow> ViewSecurity option" where
  "checkViewSecurity view =
    (if v_type view = ''login'' \<or> v_type view = ''register'' \<or> v_type view = ''password_reset''
     then Some PUBLIC
     else if nonEmptyProfiles (v_allowed_profiles view) then Some AUTHENTICATED
     else if v_limit_profile_access view = Some True then Some AUTHENTICATED
     else if (case v_source view of None \<Rightarrow> False
              | Some src \<Rightarrow> src_authenticated_user src = Some True)
     then Some AUTHENTICATED
     else
       (let viewText = toLowerCase (v_name view @ '' '' @ orEmpty (v_title view) @ '' ''
                         @ orEmpty (v_description view))
        in if list_ex (\<lambda>keyword. stringIncludes viewText keyword) securityKeywords
           then Some AUTHENTICATED else None))"

definition checkSceneSecurity :: "KnackScene \<Rightarrow> ViewSecurity option" where
  "checkSceneSecurity scene =
    (if s_authenticated scene = Some True then Some AUTHENTICATED
     else if s_type scene = Some ''authentication'' then Some PUBLIC
     else if nonEmptyProfiles (s_allowed_profiles scene) then Some AUTHENTICATED
     else if s_limit_profile_access scene = Some True then Some AUTHENTICATED
     else
       (let sceneNameLower = toLowerCase (s_name scene)
        in if list_ex (\<lambda>keyword. stringIncludes sceneNameLower keyword) securityKeywords
           then Some AUTHENTICATED else None))"

text \<open>
  The walk up the parent chain. \<open>visited\<close> is the set that the source creates empty and
  passes on, with the parent slug added, to the one recursive call.
\<close>

function checkParentScenesSecurity ::
  "KnackScene \<Rightarrow> KnackSchema \<Rightarrow> string set \<Rightarrow> ViewSecurity option" where
  "checkParentScenesSecurity scene schema visited =
    (if \<not> strTruthy (s_parent scene) \<or> the (s_parent scene) \<in> visited then None
     else
       (case find (\<lambda>s. s_slug s = the (s_parent scene)) (a_scenes (application schema)) of
          None \<Rightarrow> None
        | Some parentScene \<Rightarrow>
            (case checkSceneSecurity parentScene of
               Some parentSecurity \<Rightarrow> Some parentSecurity
             | None \<Rightarrow>
                 checkParentScenesSecurity parentScene schema
                   (insert (the (s_parent scene)) visited))))"
  by pat_completeness auto

lemma find_Some_slug:
  "find (\<lambda>s. s_slug s = p) scenes = Some x \<Longrightarrow> s_slug x = p \<and> x \<in> set scenes"
  by (induction scenes) (auto split: if_splits)

lemma unvisited_slugs_decrease:
  assumes "p \<notin> visited" and "find (\<lambda>s. s_slug s = p) scenes = Some x"
  shows "card (s_slug ` set scenes - insert p visited) < card (s_slug ` set scenes - visited)"
proof -
  from assms(2) have "p \<in> s_slug ` set scenes"
    using find_Some_slug by force
  with assms(1) have "s_slug ` set scenes - insert p visited \<subset> s_slug ` set scenes - visited"
    by blast
  then show ?thesis
    by (simp add: psubset_card_mono)
qed

termination checkParentScenesSecurity
  by (relation "measure (\<lambda>(scene, schema, visited).
        card (s_slug ` set (a_scenes (application schema)) - visited))")
     (auto intro: unvisited_slugs_decrease)

declare checkParentScenesSecurity.simps [simp del]

text \<open>
  The parent of a scene in the application, as the walk finds it, and the ancestors of
  a scene in the order of the parent chain: number 0 is the parent, number 1 the
  parent of the parent, and so on. They are the yardstick for the walk; the generator
  has no such function.
\<close>

definition parentSceneOf :: "KnackSchema \<Rightarrow> KnackScene \<Rightarrow> KnackScene option" where
  "parentSceneOf schema scene =
     (if strTruthy (s_parent scene)
      then find (\<lambda>s. s_slug s = the (s_parent scene)) (a_scenes (application schema))
      else None)"

fun ancestorAt :: "KnackSchema \<Rightarrow> KnackScene \<Rightarrow> nat \<Rightarrow> KnackScene option" where
  "ancestorAt schema scene 0 = parentSceneOf schema scene"
| "ancestorAt schema scene (Suc n) =
     (case parentSceneOf schema scene of
        None \<Rightarrow> None
      | Some parent \<Rightarrow> ancestorAt schema parent n)"

definition determineViewSecurity :: "KnackView \<Rightarrow> KnackScene \<Rightarrow> KnackSchema \<Rightarrow> ViewSecurity" where
  "determineViewSecurity view scene schema =
    (case checkViewSecurity view of
       Some viewSecurity \<Rightarrow> viewSecurity
     | None \<Rightarrow>
        (case checkSceneSecurity scene of
           Some sceneSecurity \<Rightarrow> sceneSecurity
         | None \<Rightarrow>
            (case checkParentScenesSecurity scene schema {} of
               Some parentSecurity \<Rightarrow> parentSecurity
             | None \<Rightarrow>
                (if v_type view \<in> set [''landing'', ''menu'', ''search'', ''rich_text'']
                 then PUBLIC else AUTHENTICATED))))"

section \<open>utils/pageHelpers.ts\<close>

definition isChildPage :: "KnackScene \<Rightarrow> bool" where
  "isChildPage scene = strTruthy (s_parent scene)"

definition isViewInChildPage :: "KnackView \<Rightarrow> KnackScene \<Rightarrow> bool" where
  "isViewInChildPage view scene = isChildPage scene"

text \<open>\<open>view.source?.object\<close> as a condition\<close>

definition hasSourceObject :: "KnackView \<Rightarrow> bool" where
  "hasSourceObject view =
     (case v_source view of None \<Rightarrow> False | Some src \<Rightarrow> src_object src \<noteq> [])"

definition getSceneObjectKey :: "KnackScene \<Rightarrow> string option" where
  "getSceneObjectKey scene =
     (case find hasSourceObject (s_views scene) of
        None \<Rightarrow> None
      | Some firstViewWithObject \<Rightarrow> map_option src_object (v_source firstViewWithObject))"

definition getParentParamSlug :: "KnackScene \<Rightarrow> KnackSchema \<Rightarrow> string option" where
  "getParentParamSlug scene schema =
    (if \<not> isChildPage scene then None
     else
       (case find (\<lambda>s. s_slug s = the (s_parent scene)) (a_scenes (application schema)) of
          Some parentScene \<Rightarrow>
            (if strTruthy (getSceneObjectKey parentScene)
             then Some (s_slug parentScene @ ''_id'')
             else Some (the (s_parent scene) @ ''_id''))
        | None \<Rightarrow> Some (the (s_parent scene) @ ''_id'')))"

section \<open>generators/viewsToComponents.ts\<close>

text \<open>\<open>Set.prototype.add\<close> on a set that is read back in insertion order.\<close>

definition setAdd :: "string list \<Rightarrow> string \<Rightarrow> string list" where
  "setAdd fieldKeys k = (if k \<in> set fieldKeys then fieldKeys else fieldKeys @ [k])"

text \<open>\<open>xs?.forEach\<close>: an absent array is not walked.\<close>

definition orNil :: "'a list option \<Rightarrow> 'a list" where
  "orNil xs = (case xs of None \<Rightarrow> [] | Some ys \<Rightarrow> ys)"

text \<open>\<open>column.field?.key\<close> as a condition\<close>

definition refTruthy :: "FieldRef option \<Rightarrow> bool" where
  "refTruthy r = (case r of None \<Rightarrow> False | Some fr \<Rightarrow> fr_key fr \<noteq> [])"

text \<open>The loop over table columns, also used for the result columns of a search view.\<close>

definition addFieldColumns :: "string list \<Rightarrow> KnackViewColumn list \<Rightarrow> string list" where
  "addFieldColumns fieldKeys columns =
     foldl (\<lambda>acc column.
        if c_type column = ''field'' \<and> refTruthy (c_field column)
        then setAdd acc (fr_key (the (c_field column))) else acc) fieldKeys columns"

definition addFormInputs :: "string list \<Rightarrow> KnackViewGroup list \<Rightarrow> string list" where
  "addFormInputs fieldKeys groups =
     foldl (\<lambda>acc group.
       foldl (\<lambda>acc column.
         foldl (\<lambda>acc input.
            if strTruthy (i_key input) then setAdd acc (the (i_key input))
            else if refTruthy (i_field input) then setAdd acc (fr_key (the (i_field input)))
            else acc) acc (orNil (gc_inputs column)))
         acc (orNil (g_columns group)))
       fieldKeys groups"

text \<open>Details view, first shape: groups, their columns, their fields.\<close>

definition addGroupFields :: "string list \<Rightarrow> KnackViewGroup list \<Rightarrow> string list" where
  "addGroupFields fieldKeys groups =
     foldl (\<lambda>acc group.
       foldl (\<lambda>acc column.
         foldl (\<lambda>acc field.
            if strTruthy (vf_key field) then setAdd acc (the (vf_key field)) else acc)
           acc (orNil (gc_fields column)))
         acc (orNil (g_columns group)))
       fieldKeys groups"

text \<open>Details view, alternative shape: columns, their groups, their column data.\<close>

definition addColumnField :: "string list \<Rightarrow> KnackColumnField \<Rightarrow> string list" where
  "addColumnField acc field =
     (if strTruthy (cf_key field) then setAdd acc (the (cf_key field)) else acc)"

definition addColumnData :: "string list \<Rightarrow> KnackColumnData \<Rightarrow> string list" where
  "addColumnData acc columnData =
     (case columnData of
        FieldArray fieldArray \<Rightarrow> foldl addColumnField acc fieldArray
      | SingleField field \<Rightarrow> addColumnField acc field)"

definition addColumnGroups :: "string list \<Rightarrow> KnackViewColumn list \<Rightarrow> string list" where
  "addColumnGroups fieldKeys columns =
     foldl (\<lambda>acc column.
       foldl (\<lambda>acc group. foldl addColumnData acc (orNil (cg_columns group)))
         acc (orNil (c_groups column)))
       fieldKeys columns"

definition addSearchFilters :: "string list \<Rightarrow> KnackViewGroup list \<Rightarrow> string list" where
  "addSearchFilters fieldKeys groups =
     foldl (\<lambda>acc group.
       foldl (\<lambda>acc column.
         foldl (\<lambda>acc field.
            if strTruthy (vf_field field) \<and> vf_field field \<noteq> Some ''keyword_search''
            then setAdd acc (the (vf_field field)) else acc)
           acc (orNil (gc_fields column)))
         acc (orNil (g_columns group)))
       fieldKeys groups"

definition extractFieldKeysFromView :: "KnackView \<Rightarrow> string list" where
  "extractFieldKeysFromView view =
    (if v_type view = ''table'' then addFieldColumns [] (orNil (v_columns view))
     else if v_type view = ''form'' then addFormInputs [] (orNil (v_groups view))
     else if v_type view = ''details'' then
       addColumnGroups (addGroupFields [] (orNil (v_groups view))) (orNil (v_columns view))
     else if v_type view = ''search'' then
       addSearchFilters
         (addFieldColumns [] (orNil (case v_results view of None \<Rightarrow> None
                                      | Some results \<Rightarrow> r_columns results)))
         (orNil (v_groups view))
     else [])"

text \<open>\<open>field.relationship?.object\<close> as a condition\<close>

definition hasRelationshipObject :: "KnackField \<Rightarrow> bool" where
  "hasRelationshipObject field =
     (case f_relationship field of None \<Rightarrow> False | Some rel \<Rightarrow> rel_object rel \<noteq> [])"

definition findFieldByKey :: "string \<Rightarrow> KnackObject \<Rightarrow> KnackSchema \<Rightarrow> KnackField option" where
  "findFieldByKey fieldKey sourceObject schema =
    (case find (\<lambda>field. f_key field = fieldKey) (o_fields sourceObject) of
       Some directField \<Rightarrow> Some directField
     | None \<Rightarrow>
        (case find (\<lambda>field. f_type field = ''connection'' \<and> hasRelationshipObject field)
                (o_fields sourceObject) of
           None \<Rightarrow> None
         | Some connectionField \<Rightarrow>
            (case find (\<lambda>obj. o_key obj = rel_object (the (f_relationship connectionField)))
                    (a_objects (application schema)) of
               None \<Rightarrow> None
             | Some connectedObject \<Rightarrow>
                 find (\<lambda>field. f_key field = fieldKey) (o_fields connectedObject))))"

text \<open>
  A schema under construction: \<open>schema.properties[k] = v\<close> and \<open>schema.required.push(k)\<close>,
  each guarded in the source by the presence of the property it writes to.
\<close>

definition setProperty :: "(string \<times> json) list \<Rightarrow> string \<Rightarrow> json \<Rightarrow> (string \<times> json) list" where
  "setProperty schemaObj k v =
     (case map_of schemaObj ''properties'' of
        Some (JObj props) \<Rightarrow> setProp schemaObj ''properties'' (JObj (setProp props k v))
      | _ \<Rightarrow> schemaObj)"

definition pushRequired :: "(string \<times> json) list \<Rightarrow> string \<Rightarrow> (string \<times> json) list" where
  "pushRequired schemaObj k =
     (case map_of schemaObj ''required'' of
        Some (JArr req) \<Rightarrow> setProp schemaObj ''required'' (JArr (req @ [JStr k]))
      | _ \<Rightarrow> schemaObj)"

text \<open>\<open>if (schema.required && schema.required.length === 0) delete schema.required\<close>\<close>

definition dropEmptyRequired :: "(string \<times> json) list \<Rightarrow> (string \<times> json) list" where
  "dropEmptyRequired schemaObj =
     (case map_of schemaObj ''required'' of
        Some (JArr []) \<Rightarrow> deleteProp schemaObj ''required''
      | _ \<Rightarrow> schemaObj)"

text \<open>The body of the loops that add one field to a schema.\<close>

definition addFieldProperty :: "(string \<times> json) list \<Rightarrow> KnackField \<Rightarrow> (string \<times> json) list" where
  "addFieldProperty schemaObj field =
     (let withProperty = setProperty schemaObj (f_key field) (JObj (mapFieldTypeToSchema field))
      in if f_required field then pushRequired withProperty (f_key field) else withProperty)"

definition propertyCount :: "(string \<times> json) list \<Rightarrow> nat" where
  "propertyCount schemaObj =
     (case map_of schemaObj ''properties'' of Some (JObj props) \<Rightarrow> length props | _ \<Rightarrow> 0)"

definition generateViewSchema ::
  "KnackView \<Rightarrow> KnackScene \<Rightarrow> KnackSchema \<Rightarrow> (string \<times> json) list option" where
  "generateViewSchema view scene schema =
    (case find (\<lambda>obj. Some (o_key obj) = map_option src_object (v_source view))
            (a_objects (application schema)) of
       None \<Rightarrow> None
     | Some sourceObject \<Rightarrow>
        (let fieldKeys = extractFieldKeysFromView view in
         if length fieldKeys = 0 then None
         else
           (let viewSchema = objectLiteral
                  [(''type'', JStr ''object''),
                   (''title'', JStr (v_name view @ '' in '' @ s_name scene)),
                   (''description'',
                      JStr (''Schema for '' @ v_name view @ '' view in '' @ s_name scene)),
                   (''properties'', JObj []),
                   (''required'', JArr [])];
                filled = foldl (\<lambda>acc fieldKey.
                    (case findFieldByKey fieldKey sourceObject schema of
                       None \<Rightarrow> acc
                     | Some field \<Rightarrow>
                         if shouldIncludeField field then addFieldProperty acc field else acc))
                  viewSchema fieldKeys
            in if propertyCount filled = 0 then None else Some (dropEmptyRequired filled))))"

text \<open>The body of the inner loop of \<open>generateViewComponents\<close>, on \<open>components.schemas\<close>.\<close>

definition addViewComponent ::
  "KnackSchema \<Rightarrow> KnackScene \<Rightarrow> (string \<times> json) list \<Rightarrow> KnackView \<Rightarrow> (string \<times> json) list" where
  "addViewComponent schema scene schemas view =
    (if \<not> hasSourceObject view then schemas
     else
       (case generateViewSchema view scene schema of
          None \<Rightarrow> schemas
        | Some viewSchema \<Rightarrow>
            setProp schemas (''view_'' @ s_slug scene @ ''_'' @ v_key view) (JObj viewSchema)))"

definition generateViewComponents :: "KnackSchema \<Rightarrow> (string \<times> json) list" where
  "generateViewComponents schema =
     [(''schemas'', JObj
        (foldl (\<lambda>schemas scene. foldl (addViewComponent schema scene) schemas (s_views scene))
           [] (a_scenes (application schema))))]"

section \<open>generators/objectsToComponents.ts\<close>

definition objectToSchema :: "KnackObject \<Rightarrow> string \<times> (string \<times> json) list" where
  "objectToSchema obj =
    (let schemaObj = objectLiteral
           [(''type'', JStr ''object''),
            (''title'', JStr (o_name obj)),
            (''description'', JStr (o_singular obj @ '' object'')),
            (''properties'', JObj []),
            (''required'', JArr [])];
         filled = foldl (\<lambda>acc field.
             if \<not> shouldIncludeField field then acc else addFieldProperty acc field)
           schemaObj (o_fields obj)
     in (o_key obj, dropEmptyRequired filled))"

definition generateComponents :: "KnackSchema \<Rightarrow> (string \<times> json) list" where
  "generateComponents schema =
     [(''schemas'', JObj
        (foldl (\<lambda>schemas obj.
            (case objectToSchema obj of (name, schemaObj) \<Rightarrow> setProp schemas name (JObj schemaObj)))
           [] (a_objects (application schema))))]"

text \<open>\<open>components.schemas\<close>, as spread by the caller\<close>

definition schemasOf :: "(string \<times> json) list \<Rightarrow> (string \<times> json) list" where
  "schemasOf components =
     (case map_of components ''schemas'' of Some (JObj schemas) \<Rightarrow> schemas | _ \<Rightarrow> [])"

section \<open>generators/paginationToComponents.ts\<close>

definition createPaginatedResponseSchema :: "string \<Rightarrow> (string \<times> json) list" where
  "createPaginatedResponseSchema itemSchemaRef =
     objectLiteral
       [(''type'', JStr ''object''),
        (''properties'', JObj (objectLiteral
           [(''records'', JObj (objectLiteral
               [(''type'', JStr ''array''),
                (''items'', JObj (objectLiteral [(''$ref'', JStr itemSchemaRef)]))])),
            (''total_pages'', JObj (objectLiteral [(''type'', JStr ''integer'')])),
            (''total_records'', JObj (objectLiteral [(''type'', JStr ''integer'')])),
            (''current_page'', JObj (objectLiteral [(''type'', JStr ''integer'')]))]))]"



section \<open>generators/viewsToPaths.ts\<close>

text \<open>
  The two \<open>replace\<close> calls: every character that is not an ASCII letter or digit goes,
  then every run of white space (of which none is left).
\<close>

definition isAlnum :: "char \<Rightarrow> bool" where
  "isAlnum c =
     (c \<in> set ''abcdefghijklmnopqrstuvwxyzABCDEFGHIJKLMNOPQRSTUVWXYZ0123456789'')"

definition isSpace :: "char \<Rightarrow> bool" where
  "isSpace c = (c \<in> set [CHR '' '', CHR 0x09, CHR 0x0A, CHR 0x0B, CHR 0x0C, CHR 0x0D])"

definition formatNameForOperationId :: "string \<Rightarrow> string" where
  "formatNameForOperationId name = filter (\<lambda>c. \<not> isSpace c) (filter isAlnum name)"

definition createParentIdParameter :: "string \<Rightarrow> string \<Rightarrow> (string \<times> json) list" where
  "createParentIdParameter parentParamSlug sceneName =
     objectLiteral
       [(''name'', JStr parentParamSlug),
        (''in'', JStr ''query''),
        (''description'', JStr (''ID of the parent record for this '' @ sceneName @ '' view'')),
        (''schema'', JObj (objectLiteral [(''type'', JStr ''string'')])),
        (''required'', JBool True)]"

text \<open>\<open>...(isChildPageView && parentParamSlug ? [createParentIdParameter(...)] : [])\<close>\<close>

definition parentIdParameters :: "bool \<Rightarrow> string option \<Rightarrow> string \<Rightarrow> json list" where
  "parentIdParameters isChildPageView parentParamSlug sceneName =
     (if isChildPageView \<and> strTruthy parentParamSlug
      then [JObj (createParentIdParameter (the parentParamSlug) sceneName)] else [])"

text \<open>The tag of a view operation: the name of the source object, if it is found.\<close>

definition viewTagName :: "KnackView \<Rightarrow> KnackScene \<Rightarrow> KnackSchema \<Rightarrow> string" where
  "viewTagName view scene schema =
     (case find (\<lambda>obj. Some (o_key obj) = map_option src_object (v_source view))
             (a_objects (application schema)) of
        Some sourceObject \<Rightarrow> o_name sourceObject
      | None \<Rightarrow> ''View: '' @ s_name scene)"

text \<open>
  The block that ends each of the three operation generators:
  \<open>if (security === ViewSecurity.AUTHENTICATED) { ... }\<close>.
\<close>

definition addAuthentication :: "ViewSecurity \<Rightarrow> (string \<times> json) list \<Rightarrow> (string \<times> json) list" where
  "addAuthentication security operation =
    (if security = AUTHENTICATED then
       (let responses = (case map_of operation ''responses'' of
                           Some (JObj r) \<Rightarrow> r | _ \<Rightarrow> []);
            withStub = setProp operation ''responses''
              (JObj (setProp responses ''401'' (JObj (objectLiteral
                 [(''description'', JStr ''Unauthorized - Authentication required'')]))))
        in setProp withStub ''security''
             (JArr [JObj (objectLiteral [(''apiKey'', JArr []), (''viewAuth'', JArr [])])]))
     else operation)"

definition generateViewGetOperation ::
  "KnackView \<Rightarrow> KnackScene \<Rightarrow> KnackSchema \<Rightarrow> ViewSecurity \<Rightarrow> string \<Rightarrow> bool \<Rightarrow> string option
     \<Rightarrow> (string \<times> json) list" where
  "generateViewGetOperation view scene schema security viewSchemaRef isChildPageView
     parentParamSlug =
    (let isDetailsView = (v_type view = ''details'');
         tagName = viewTagName view scene schema;
         operation = objectLiteral
           [(''summary'', JStr (''Access '' @ v_name view @ '' records'')),
            (''description'', JStr (''Retrieves records from '' @ v_name view @ '' view in ''
               @ s_name scene @ ''. ''
               @ (if isDetailsView then ''Returns a single record.''
                  else if isChildPageView
                  then ''Returns a list of records filtered by the parent ID.''
                  else ''Returns a list of records.''))),
            (''operationId'', JStr (v_key view @ ''_access''
               @ formatNameForOperationId (v_name view))),
            (''tags'', JArr [JStr tagName]),
            (''parameters'', JArr
               (parentIdParameters isChildPageView parentParamSlug (s_name scene)
                @ (if \<not> isDetailsView
                   then [JObj (objectLiteral [(''$ref'', JStr ''#/components/parameters/page'')]),
                         JObj (objectLiteral
                           [(''$ref'', JStr ''#/components/parameters/rowsPerPage'')])]
                   else []))),
            (''responses'', JObj (objectLiteral
               [(''200'', JObj (objectLiteral
                   [(''description'', JStr (''Records from '' @ v_name view)),
                    (''content'', JObj (objectLiteral
                       [(''application/json'', JObj (objectLiteral
                           [(''schema'', JObj
                               (if isDetailsView
                                then objectLiteral [(''$ref'', JStr viewSchemaRef)]
                                else createPaginatedResponseSchema viewSchemaRef))]))]))]))])),
            (''security'', JArr [JObj (objectLiteral [(''apiKey'', JArr [])])])]
     in addAuthentication security operation)"

text \<open>The request body and the responses that the POST and the PUT operation share in shape.\<close>

definition formRequestBody :: "string \<Rightarrow> string \<Rightarrow> json" where
  "formRequestBody description viewSchemaRef =
     JObj (objectLiteral
       [(''description'', JStr description),
        (''required'', JBool True),
        (''content'', JObj (objectLiteral
           [(''application/json'', JObj (objectLiteral
               [(''schema'', JObj (objectLiteral [(''$ref'', JStr viewSchemaRef)]))]))]))])"

definition formResponses :: "string \<Rightarrow> string \<Rightarrow> string \<Rightarrow> json" where
  "formResponses status description idDescription =
     JObj (objectLiteral
       [(status, JObj (objectLiteral
           [(''description'', JStr description),
            (''content'', JObj (objectLiteral
               [(''application/json'', JObj (objectLiteral
                   [(''schema'', JObj (objectLiteral
                       [(''type'', JStr ''object''),
                        (''properties'', JObj (objectLiteral
                           [(''id'', JObj (objectLiteral
                               [(''type'', JStr ''string''),
                                (''description'', JStr idDescription)]))]))]))]))]))])),
        (''400'', JObj (objectLiteral [(''description'', JStr ''Invalid input'')]))])"

definition generateViewPostOperation ::
  "KnackView \<Rightarrow> KnackScene \<Rightarrow> KnackSchema \<Rightarrow> ViewSecurity \<Rightarrow> string \<Rightarrow> bool \<Rightarrow> string option
     \<Rightarrow> (string \<times> json) list" where
  "generateViewPostOperation view scene schema security viewSchemaRef isChildPageView
     parentParamSlug =
    (let tagName = viewTagName view scene schema;
         operation = objectLiteral
           [(''summary'', JStr (''Submit '' @ v_name view)),
            (''description'', JStr (''Submits data to '' @ v_name view @ '' form in ''
               @ s_name scene)),
            (''operationId'', JStr (v_key view @ ''_submit''
               @ formatNameForOperationId (v_name view))),
            (''tags'', JArr [JStr tagName]),
            (''parameters'', JArr
               (parentIdParameters isChildPageView parentParamSlug (s_name scene))),
            (''requestBody'', formRequestBody (''Data to submit to '' @ v_name view) viewSchemaRef),
            (''responses'',
               formResponses ''201'' ''Successfully submitted'' ''ID of the created record''),
            (''security'', JArr [JObj (objectLiteral [(''apiKey'', JArr [])])])]
     in addAuthentication security operation)"

definition generateViewPutOperation ::
  "KnackView \<Rightarrow> KnackScene \<Rightarrow> KnackSchema \<Rightarrow> ViewSecurity \<Rightarrow> string \<Rightarrow> bool \<Rightarrow> string option
     \<Rightarrow> (string \<times> json) list" where
  "generateViewPutOperation view scene schema security viewSchemaRef isChildPageView
     parentParamSlug =
    (let tagName = viewTagName view scene schema;
         operation = objectLiteral
           [(''summary'', JStr (''Update '' @ v_name view)),
            (''description'', JStr (''Updates data through '' @ v_name view @ '' form in ''
               @ s_name scene)),
            (''operationId'', JStr (v_key view @ ''_update''
               @ formatNameForOperationId (v_name view))),
            (''tags'', JArr [JStr tagName]),
            (''parameters'', JArr
               (parentIdParameters isChildPageView parentParamSlug (s_name scene))),
            (''requestBody'', formRequestBody (''Data to update in '' @ v_name view) viewSchemaRef),
            (''responses'',
               formResponses ''200'' ''Successfully updated'' ''ID of the updated record''),
            (''security'', JArr [JObj (objectLiteral [(''apiKey'', JArr [])])])]
     in addAuthentication security operation)"

definition generatePathsForView ::
  "KnackView \<Rightarrow> KnackScene \<Rightarrow> KnackSchema \<Rightarrow> (string \<times> json) list" where
  "generatePathsForView view scene schema =
    (if \<not> hasSourceObject view then []
     else
       (let isChildPageView = isViewInChildPage view scene;
            parentParamSlug = (if isChildPageView then getParentParamSlug scene schema else None);
            basePath = ''/scenes/'' @ s_key scene @ ''/views/'' @ v_key view;
            recordsPath = basePath @ ''/records'';
            security = determineViewSecurity view scene schema;
            viewSchemaRef = ''#/components/schemas/view_'' @ s_slug scene @ ''_'' @ v_key view
        in if v_type view = ''form'' then
             (if v_action view = Some ''update'' then
                setProp [] recordsPath (JObj (objectLiteral
                  [(''put'', JObj (generateViewPutOperation view scene schema security
                      viewSchemaRef isChildPageView parentParamSlug))]))
              else
                setProp [] recordsPath (JObj (objectLiteral
                  [(''post'', JObj (generateViewPostOperation view scene schema security
                      viewSchemaRef isChildPageView parentParamSlug))])))
           else
             setProp [] recordsPath (JObj (objectLiteral
               [(''get'', JObj (generateViewGetOperation view scene schema security
                   viewSchemaRef isChildPageView parentParamSlug))]))))"



section \<open>generators/objectsToPaths.ts\<close>























section \<open>index.ts: the assembled document\<close>




text \<open>
  Reading an operation back: the scheme names of its one security requirement, the
  status codes of its responses, and its parameters.
\<close>

definition securitySchemes :: "(string \<times> json) list \<Rightarrow> string list" where
  "securitySchemes operation =
     (case map_of operation ''security'' of
        Some (JArr [JObj requirement]) \<Rightarrow> map fst requirement
      | _ \<Rightarrow> [])"

definition responseCodes :: "(string \<times> json) list \<Rightarrow> string list" where
  "responseCodes operation =
     (case map_of operation ''responses'' of
        Some (JObj responses) \<Rightarrow> map fst responses
      | _ \<Rightarrow> [])"

definition operationParameters :: "(string \<times> json) list \<Rightarrow> json list" where
  "operationParameters operation =
     (case map_of operation ''parameters'' of Some (JArr ps) \<Rightarrow> ps | _ \<Rightarrow> [])"

section \<open>What a details view lists, and what a schema requires\<close>

text \<open>
  The field keys that a details view lists in its first shape (groups, columns, field
  lists) and in its alternative shape (columns, groups, column data), in document
  order. These two readings are the yardstick for the extractor; they are not part of
  the generator.
\<close>

definition presentKey :: "string option \<Rightarrow> string list" where
  "presentKey k = (case k of None \<Rightarrow> [] | Some key \<Rightarrow> [key])"

text \<open>The keys among \<open>ks\<close> that pass a truthiness test: the non-empty ones.\<close>

definition truthyKeys :: "string list \<Rightarrow> string set" where
  "truthyKeys ks = set ks - {[]}"

definition groupShapeKeys :: "KnackView \<Rightarrow> string list" where
  "groupShapeKeys view =
     concat (map (\<lambda>group.
       concat (map (\<lambda>column.
         concat (map (\<lambda>field. presentKey (vf_key field)) (orNil (gc_fields column))))
         (orNil (g_columns group))))
       (orNil (v_groups view)))"

fun columnDataKeys :: "KnackColumnData \<Rightarrow> string list" where
  "columnDataKeys (SingleField field) = presentKey (cf_key field)"
| "columnDataKeys (FieldArray fieldArray) =
     concat (map (\<lambda>field. presentKey (cf_key field)) fieldArray)"

definition columnShapeKeys :: "KnackView \<Rightarrow> string list" where
  "columnShapeKeys view =
     concat (map (\<lambda>column.
       concat (map (\<lambda>group. concat (map columnDataKeys (orNil (cg_columns group))))
         (orNil (c_groups column))))
       (orNil (v_columns view)))"

text \<open>
  A component schema is in order with respect to \<open>required\<close> when the key is absent or
  holds a non-empty array.
\<close>

text \<open>While a schema is filled in, its \<open>required\<close> property holds an array.\<close>

definition hasRequiredArray :: "(string \<times> json) list \<Rightarrow> bool" where
  "hasRequiredArray schemaObj =
     (case map_of schemaObj ''required'' of Some (JArr req) \<Rightarrow> True | _ \<Rightarrow> False)"

definition requiredOk :: "json \<Rightarrow> bool" where
  "requiredOk v =
     (case v of
        JObj schemaObj \<Rightarrow>
          (case map_of schemaObj ''required'' of
             None \<Rightarrow> True
           | Some (JArr req) \<Rightarrow> req \<noteq> []
           | Some _ \<Rightarrow> False)
      | _ \<Rightarrow> False)"

section \<open>Example inputs\<close>

definition exampleUnknownField :: KnackField where
  "exampleUnknownField =
     \<lparr>f_key = ''field_9'', f_name = ''Rating'', f_type = ''rating'', f_required = False,
      f_format = None, f_relationship = None\<rparr>"

definition exampleField1 :: KnackField where
  "exampleField1 =
     \<lparr>f_key = ''field_1'', f_name = ''Project Name'', f_type = ''short_text'',
      f_required = True, f_format = None, f_relationship = None\<rparr>"

definition exampleObject1 :: KnackObject where
  "exampleObject1 =
     \<lparr>o_key = ''object_1'', o_name = ''Projects'', o_fields = [exampleField1],
      o_singular = ''Project'', o_plural = ''Projects''\<rparr>"

definition plainView :: "string \<Rightarrow> string \<Rightarrow> string \<Rightarrow> KnackSource option \<Rightarrow> KnackView" where
  "plainView k n t src =
     \<lparr>v_key = k, v_name = n, v_type = t, v_title = None, v_description = None,
      v_source = src, v_results = None, v_columns = None, v_groups = None,
      v_allowed_profiles = None, v_limit_profile_access = None, v_action = None\<rparr>"

definition plainScene :: "string \<Rightarrow> string \<Rightarrow> string \<Rightarrow> string option \<Rightarrow> KnackView list \<Rightarrow> KnackScene" where
  "plainScene k n slug parent views =
     \<lparr>s_key = k, s_name = n, s_slug = slug, s_views = views, s_parent = parent,
      s_type = None, s_allowed_profiles = None, s_limit_profile_access = None,
      s_authenticated = None\<rparr>"

definition appOf :: "KnackObject list \<Rightarrow> KnackScene list \<Rightarrow> KnackSchema" where
  "appOf objects scenes =
     \<lparr>application = \<lparr>a_name = ''Project Management App'', a_objects = objects,
        a_scenes = scenes\<rparr>\<rparr>"

definition object1Source :: "KnackSource option" where
  "object1Source = Some \<lparr>src_object = ''object_1'', src_authenticated_user = None\<rparr>"

definition exampleLoginView :: KnackView where
  "exampleLoginView =
     (plainView ''view_7'' ''My account'' ''login'' None)\<lparr>v_limit_profile_access := Some True\<rparr>"

definition exampleTableView :: KnackView where
  "exampleTableView = plainView ''view_1'' ''Projects List'' ''table'' object1Source"

definition exampleAuthScene :: KnackScene where
  "exampleAuthScene =
     (plainScene ''scene_1'' ''Projects'' ''projects'' None [exampleLoginView, exampleTableView])
       \<lparr>s_authenticated := Some True\<rparr>"

text \<open>Two scenes that name each other as parent.\<close>

definition cycleSceneA :: KnackScene where
  "cycleSceneA = plainScene ''scene_a'' ''Page A'' ''a'' (Some ''b'') []"

definition cycleSceneB :: KnackScene where
  "cycleSceneB = plainScene ''scene_b'' ''Page B'' ''b'' (Some ''a'') []"

definition cycleSceneBAuth :: KnackScene where
  "cycleSceneBAuth = cycleSceneB\<lparr>s_authenticated := Some True\<rparr>"

text \<open>Three levels: a leaf page under a middle page under an authenticated top page.\<close>

definition chainTop :: KnackScene where
  "chainTop = (plainScene ''scene_t'' ''Top'' ''top'' None [])\<lparr>s_authenticated := Some True\<rparr>"

definition chainMid :: KnackScene where
  "chainMid = plainScene ''scene_m'' ''Middle'' ''mid'' (Some ''top'') []"

definition chainLeaf :: KnackScene where
  "chainLeaf = plainScene ''scene_l'' ''Leaf'' ''leaf'' (Some ''mid'') []"

definition chainApp :: KnackSchema where
  "chainApp = appOf [] [chainLeaf, chainMid, chainTop]"

definition emptyParentScene :: KnackScene where
  "emptyParentScene = plainScene ''scene_e'' ''Page E'' ''e'' (Some []) []"

definition orphanScene :: KnackScene where
  "orphanScene = plainScene ''scene_o'' ''Page O'' ''o'' (Some ''gone'') []"

text \<open>Tasks point to projects, and time entries point to tasks.\<close>

definition exampleField6 :: KnackField where
  "exampleField6 =
     \<lparr>f_key = ''field_6'', f_name = ''Task Name'', f_type = ''short_text'',
      f_required = True, f_format = None, f_relationship = None\<rparr>"

definition exampleField7 :: KnackField where
  "exampleField7 =
     \<lparr>f_key = ''field_7'', f_name = ''Project'', f_type = ''connection'',
      f_required = True, f_format = None,
      f_relationship = Some \<lparr>rel_object = ''object_1''\<rparr>\<rparr>"

definition exampleObject2 :: KnackObject where
  "exampleObject2 =
     \<lparr>o_key = ''object_2'', o_name = ''Tasks'', o_fields = [exampleField6, exampleField7],
      o_singular = ''Task'', o_plural = ''Tasks''\<rparr>"

definition exampleField9 :: KnackField where
  "exampleField9 =
     \<lparr>f_key = ''field_9'', f_name = ''Task'', f_type = ''connection'',
      f_required = False, f_format = None,
      f_relationship = Some \<lparr>rel_object = ''object_2''\<rparr>\<rparr>"

definition exampleObject3 :: KnackObject where
  "exampleObject3 =
     \<lparr>o_key = ''object_3'', o_name = ''Time Entries'', o_fields = [exampleField9],
      o_singular = ''Time Entry'', o_plural = ''Time Entries''\<rparr>"

definition exampleObjects :: KnackSchema where
  "exampleObjects = appOf [exampleObject1, exampleObject2, exampleObject3] []"

text \<open>One field list, written in the first shape and in the alternative shape.\<close>

definition keyedField :: "string \<Rightarrow> KnackViewField" where
  "keyedField k = \<lparr>vf_field = None, vf_key = Some k\<rparr>"

definition exampleDetailsGroups :: KnackView where
  "exampleDetailsGroups =
     (plainView ''view_3'' ''Project Details'' ''details'' object1Source)
       \<lparr>v_groups := Some [\<lparr>g_columns = Some [\<lparr>gc_inputs = None,
            gc_fields = Some [keyedField ''field_1'', keyedField ''field_2'']\<rparr>]\<rparr>]\<rparr>"

definition exampleDetailsColumns :: KnackView where
  "exampleDetailsColumns =
     (plainView ''view_4'' ''Project Details'' ''details'' object1Source)
       \<lparr>v_columns := Some [\<lparr>c_type = ''group'', c_field = None,
            c_groups = Some [\<lparr>cg_columns = Some
              [SingleField \<lparr>cf_key = Some ''field_2''\<rparr>,
               FieldArray [\<lparr>cf_key = Some ''field_1''\<rparr>, \<lparr>cf_key = Some ''field_2''\<rparr>]]\<rparr>]\<rparr>]\<rparr>"

text \<open>
  One object with one required short text field, and one scene with one table view
  on that object.
\<close>

definition exampleListView :: KnackView where
  "exampleListView =
     (plainView ''view_1'' ''Projects List'' ''table'' object1Source)
       \<lparr>v_columns := Some [\<lparr>c_type = ''field'', c_field = Some \<lparr>fr_key = ''field_1''\<rparr>,
            c_groups = None\<rparr>]\<rparr>"

definition exampleScene1 :: KnackScene where
  "exampleScene1 = plainScene ''scene_1'' ''Projects'' ''projects'' None [exampleListView]"

definition exampleApp :: KnackSchema where
  "exampleApp = appOf [exampleObject1] [exampleScene1]"

definition exampleField1Schema :: json where
  "exampleField1Schema =
     JObj [(''title'', JStr ''Project Name''), (''description'', JStr ''Project Name field''),
           (''type'', JStr ''string'')]"

definition exampleObject1Schema :: json where
  "exampleObject1Schema =
     JObj [(''type'', JStr ''object''), (''title'', JStr ''Projects''),
           (''description'', JStr ''Project object''),
           (''properties'', JObj [(''field_1'', exampleField1Schema)]),
           (''required'', JArr [JStr ''field_1''])]"

definition exampleListViewSchema :: json where
  "exampleListViewSchema =
     JObj [(''type'', JStr ''object''), (''title'', JStr ''Projects List in Projects''),
           (''description'', JStr ''Schema for Projects List view in Projects''),
           (''properties'', JObj [(''field_1'', exampleField1Schema)]),
           (''required'', JArr [JStr ''field_1''])]"

text \<open>An update form on a child page of the projects page.\<close>

definition exampleFormView :: KnackView where
  "exampleFormView =
     (plainView ''view_2'' ''Edit Task'' ''form'' object1Source)\<lparr>v_action := Some ''update''\<rparr>"

definition exampleChildScene :: KnackScene where
  "exampleChildScene =
     plainScene ''scene_2'' ''Project Tasks'' ''tasks'' (Some ''projects'') [exampleFormView]"

definition exampleApp2 :: KnackSchema where
  "exampleApp2 = appOf [exampleObject1] [exampleScene1, exampleChildScene]"




section \<open>Properties of objects\<close>

lemma map_of_setProp: "map_of (setProp obj k v) k' = (if k' = k then Some v else map_of obj k')"
  by (induction obj) auto

lemma map_of_objectAssign:
  "map_of (objectAssign target src) k =
     (case map_of (rev src) k of Some v \<Rightarrow> Some v | None \<Rightarrow> map_of target k)"
  unfolding objectAssign_def
proof (induction src arbitrary: target)
  case Nil
  show ?case by simp
next
  case (Cons p src)
  obtain k' v' where p: "p = (k', v')" by (cases p)
  show ?case
    by (simp add: p Cons.IH map_of_setProp map_add_def split: option.splits)
qed

lemma map_of_objectLiteral: "map_of (objectLiteral entries) k = map_of (rev entries) k"
  by (simp add: objectLiteral_def map_of_objectAssign split: option.splits)

section \<open>The field type mapper\<close>

lemma type_objectLiteral:
  assumes "''type'' \<notin> fst ` set rest"
  shows "map_of (objectLiteral (baseSchema field @ (''type'', v) # rest)) ''type'' = Some v"
proof -
  from assms have "map_of (rev rest) ''type'' = None"
    by (simp add: map_of_eq_None_iff)
  then show ?thesis
    by (simp add: map_of_objectLiteral map_add_def baseSchema_def)
qed

lemma mapFieldTypeToSchema_default:
  "f_type field \<notin> set KnackFieldType \<Longrightarrow>
   mapFieldTypeToSchema field =
     objectLiteral (baseSchema field
       @ [(''type'', JStr ''string''),
          (''description'', JStr (''Unknown field type: '' @ f_type field))])"
  by (simp add: mapFieldTypeToSchema_def Let_def KnackFieldType_def)

lemma mapFieldTypeToSchema_has_type:
  "\<exists>ty. map_of (mapFieldTypeToSchema field) ''type'' = Some (JStr ty) \<and> ty \<noteq> []"
proof (cases "f_type field \<in> set KnackFieldType")
  case False
  then show ?thesis
    using mapFieldTypeToSchema_default [of field] by (simp add: type_objectLiteral)
next
  case True
  then show ?thesis
    unfolding KnackFieldType_def set_simps insert_iff empty_iff
    by (elim disjE FalseE)
       (simp_all add: mapFieldTypeToSchema_def Let_def type_objectLiteral spreadIf_def
          split: option.splits)
qed

text \<open>
  C1. For every field definition the mapper returns a schema whose \<open>type\<close> property is
  present and a non-empty string; for a type string outside the enumeration
  \<open>KnackFieldType\<close> the schema has type \<open>string\<close> and the description
  \<open>Unknown field type: <type>\<close>. The mapper has no failing branch: it is a total
  function on field definitions.
\<close>

theorem mapFieldTypeToSchema_type_present:
  "(\<exists>ty. map_of (mapFieldTypeToSchema field) ''type'' = Some (JStr ty) \<and> ty \<noteq> []) \<and>
   (f_type field \<notin> set KnackFieldType \<longrightarrow>
      map_of (mapFieldTypeToSchema field) ''type'' = Some (JStr ''string'') \<and>
      map_of (mapFieldTypeToSchema field) ''description'' =
        Some (JStr (''Unknown field type: '' @ f_type field)))"
proof (intro conjI impI)
  show "\<exists>ty. map_of (mapFieldTypeToSchema field) ''type'' = Some (JStr ty) \<and> ty \<noteq> []"
    by (rule mapFieldTypeToSchema_has_type)
next
  assume "f_type field \<notin> set KnackFieldType"
  then show "map_of (mapFieldTypeToSchema field) ''type'' = Some (JStr ''string'')"
    using mapFieldTypeToSchema_default [of field] by (simp add: type_objectLiteral)
next
  assume "f_type field \<notin> set KnackFieldType"
  then show "map_of (mapFieldTypeToSchema field) ''description'' =
        Some (JStr (''Unknown field type: '' @ f_type field))"
    using mapFieldTypeToSchema_default [of field]
    by (simp add: map_of_objectLiteral baseSchema_def)
qed

theorem mapFieldTypeToSchema_type_present_witness:
  "f_type exampleUnknownField \<notin> set KnackFieldType \<and>
   map_of (mapFieldTypeToSchema exampleUnknownField) ''type'' = Some (JStr ''string'') \<and>
   map_of (mapFieldTypeToSchema exampleUnknownField) ''description'' =
     Some (JStr ''Unknown field type: rating'')"
  using mapFieldTypeToSchema_type_present [of exampleUnknownField]
  by (simp add: exampleUnknownField_def KnackFieldType_def)

section \<open>The security classifier\<close>

lemma checkViewSecurity_not_public:
  "v_type view \<notin> {''login'', ''register'', ''password_reset''} \<Longrightarrow>
   checkViewSecurity view \<noteq> Some PUBLIC"
  by (simp add: checkViewSecurity_def Let_def)

text \<open>
  C2. \<open>determineViewSecurity\<close> is a function of its three arguments (the same view, scene
  and application always give the same verdict). A view of type \<open>login\<close> is public
  whatever the other flags of the view and of the scene are; in a scene with
  \<open>authenticated = true\<close> every view is classified authenticated unless its type is
  \<open>login\<close>, \<open>register\<close> or \<open>password_reset\<close>.
\<close>

theorem determineViewSecurity_login_authenticated:
  "(v_type view = ''login'' \<longrightarrow> determineViewSecurity view scene schema = PUBLIC) \<and>
   (s_authenticated scene = Some True \<and>
    v_type view \<notin> {''login'', ''register'', ''password_reset''} \<longrightarrow>
      determineViewSecurity view scene schema = AUTHENTICATED)"
proof (intro conjI impI)
  assume "v_type view = ''login''"
  then have "checkViewSecurity view = Some PUBLIC"
    by (simp add: checkViewSecurity_def)
  then show "determineViewSecurity view scene schema = PUBLIC"
    by (simp add: determineViewSecurity_def)
next
  assume a: "s_authenticated scene = Some True \<and>
    v_type view \<notin> {''login'', ''register'', ''password_reset''}"
  then have v: "checkViewSecurity view \<noteq> Some PUBLIC"
    using checkViewSecurity_not_public by blast
  from a have s: "checkSceneSecurity scene = Some AUTHENTICATED"
    by (simp add: checkSceneSecurity_def)
  show "determineViewSecurity view scene schema = AUTHENTICATED"
  proof (cases "checkViewSecurity view")
    case None
    with s show ?thesis by (simp add: determineViewSecurity_def)
  next
    case (Some sec)
    with v have "sec = AUTHENTICATED" by (cases sec) auto
    with Some show ?thesis by (simp add: determineViewSecurity_def)
  qed
qed

theorem determineViewSecurity_login_authenticated_witness:
  "v_type exampleLoginView = ''login'' \<and>
   v_limit_profile_access exampleLoginView = Some True \<and>
   determineViewSecurity exampleLoginView exampleAuthScene (appOf [] [exampleAuthScene]) = PUBLIC \<and>
   s_authenticated exampleAuthScene = Some True \<and>
   v_type exampleTableView \<notin> {''login'', ''register'', ''password_reset''} \<and>
   determineViewSecurity exampleTableView exampleAuthScene (appOf [] [exampleAuthScene]) = AUTHENTICATED"
  using determineViewSecurity_login_authenticated
          [of exampleLoginView exampleAuthScene "appOf [] [exampleAuthScene]"]
        determineViewSecurity_login_authenticated
          [of exampleTableView exampleAuthScene "appOf [] [exampleAuthScene]"]
  by (simp add: exampleLoginView_def exampleTableView_def exampleAuthScene_def
        plainView_def plainScene_def)

section \<open>The walk up the parent chain\<close>

lemma parentSceneOf_Some:
  assumes "parentSceneOf schema scene = Some parent"
  shows "strTruthy (s_parent scene)"
    and "s_slug parent = the (s_parent scene)"
    and "find (\<lambda>s. s_slug s = s_slug parent) (a_scenes (application schema)) = Some parent"
proof -
  from assms show t: "strTruthy (s_parent scene)"
    by (simp add: parentSceneOf_def split: if_splits)
  with assms have f: "find (\<lambda>s. s_slug s = the (s_parent scene))
      (a_scenes (application schema)) = Some parent"
    by (simp add: parentSceneOf_def)
  then show s: "s_slug parent = the (s_parent scene)"
    using find_Some_slug by blast
  from f s show "find (\<lambda>s. s_slug s = s_slug parent) (a_scenes (application schema)) = Some parent"
    by simp
qed

lemma ancestorAt_found:
  "ancestorAt schema scene n = Some a \<Longrightarrow>
   find (\<lambda>s. s_slug s = s_slug a) (a_scenes (application schema)) = Some a"
  by (induction n arbitrary: scene) (auto split: option.splits dest: parentSceneOf_Some(3))

lemma ancestorAt_compose:
  "ancestorAt schema scene (Suc (i + j)) =
     (case ancestorAt schema scene i of None \<Rightarrow> None | Some a \<Rightarrow> ancestorAt schema a j)"
  by (induction i arbitrary: scene) (auto split: option.splits)

lemma checkParentScenesSecurity_step:
  assumes "parentSceneOf schema scene = Some parent" and "s_slug parent \<notin> visited"
  shows "checkParentScenesSecurity scene schema visited =
           (case checkSceneSecurity parent of
              Some v \<Rightarrow> Some v
            | None \<Rightarrow> checkParentScenesSecurity parent schema (insert (s_slug parent) visited))"
proof -
  note p = parentSceneOf_Some [OF assms(1)]
  from p(2,3) have "find (\<lambda>s. s_slug s = the (s_parent scene))
      (a_scenes (application schema)) = Some parent"
    by simp
  with p(1,2) assms(2) show ?thesis
    by (subst checkParentScenesSecurity.simps) (simp split: option.splits)
qed

lemma walk_reaches_first_decisive:
  assumes "ancestorAt schema scene n = Some a" and "checkSceneSecurity a = Some v"
    and "\<forall>k<n. \<forall>b. ancestorAt schema scene k = Some b \<longrightarrow> checkSceneSecurity b = None"
    and "\<forall>k\<le>n. \<forall>b. ancestorAt schema scene k = Some b \<longrightarrow> s_slug b \<notin> visited"
  shows "checkParentScenesSecurity scene schema visited = Some v"
  using assms
proof (induction n arbitrary: scene visited)
  case 0
  then have "parentSceneOf schema scene = Some a" and "s_slug a \<notin> visited"
    by simp_all
  with 0(2) show ?case
    by (simp add: checkParentScenesSecurity_step)
next
  case (Suc n)
  from Suc.prems(1) obtain p where p: "parentSceneOf schema scene = Some p"
    and pa: "ancestorAt schema p n = Some a"
    by (auto split: option.splits)
  from p have p0: "ancestorAt schema scene 0 = Some p"
    by simp
  from Suc.prems(3) [rule_format, of 0 p] p0 have pnone: "checkSceneSecurity p = None"
    by simp
  from Suc.prems(4) [rule_format, of 0 p] p0 have pvis: "s_slug p \<notin> visited"
    by simp
  have shift: "ancestorAt schema scene (Suc k) = ancestorAt schema p k" for k
    by (simp add: p)
  have earlier: "\<forall>k<n. \<forall>b. ancestorAt schema p k = Some b \<longrightarrow> checkSceneSecurity b = None"
  proof (intro allI impI)
    fix k b
    assume "k < n" and "ancestorAt schema p k = Some b"
    with Suc.prems(3) [rule_format, of "Suc k" b] shift [of k]
    show "checkSceneSecurity b = None" by simp
  qed
  have fresh: "\<forall>k\<le>n. \<forall>b. ancestorAt schema p k = Some b \<longrightarrow>
      s_slug b \<notin> insert (s_slug p) visited"
  proof (intro allI impI)
    fix k b
    assume k: "k \<le> n" and b: "ancestorAt schema p k = Some b"
    from Suc.prems(4) [rule_format, of "Suc k" b] shift [of k] k b
    have "s_slug b \<notin> visited"
      by simp
    moreover have "s_slug b \<noteq> s_slug p"
    proof
      assume same: "s_slug b = s_slug p"
      have "find (\<lambda>s. s_slug s = s_slug b) (a_scenes (application schema)) = Some b"
        by (rule ancestorAt_found [OF b])
      then have "find (\<lambda>s. s_slug s = s_slug p) (a_scenes (application schema)) = Some b"
        by (simp only: same)
      with parentSceneOf_Some(3) [OF p, symmetric] have "Some p = Some b"
        by (rule trans)
      then have "b = p"
        by simp
      with b have loop: "ancestorAt schema p k = Some p" by simp
      show False
      proof (cases "k = n")
        case True
        with loop pa pnone Suc.prems(2) show False by simp
      next
        case False
        with k have "k < n" by simp
        then obtain j where j: "n = Suc (k + j)"
          using less_iff_Suc_add by blast
        with pa loop ancestorAt_compose [of schema p k j]
        have "ancestorAt schema p j = Some a"
          by simp
        moreover from j have "j < n" by simp
        ultimately have "checkSceneSecurity a = None"
          using earlier [rule_format, of j a] by simp
        with Suc.prems(2) show False by simp
      qed
    qed
    ultimately show "s_slug b \<notin> insert (s_slug p) visited" by simp
  qed
  from Suc.IH [OF pa Suc.prems(2) earlier fresh]
  have "checkParentScenesSecurity p schema (insert (s_slug p) visited) = Some v" .
  with p pvis pnone show ?case
    by (simp add: checkParentScenesSecurity_step)
qed

lemma walk_without_decisive:
  assumes "\<forall>n a. ancestorAt schema scene n = Some a \<longrightarrow> checkSceneSecurity a = None"
  shows "checkParentScenesSecurity scene schema visited = None"
  using assms
proof (induction scene schema visited rule: checkParentScenesSecurity.induct)
  case (1 scene schema visited)
  show ?case
  proof (cases "\<not> strTruthy (s_parent scene) \<or> the (s_parent scene) \<in> visited")
    case True
    then show ?thesis by (subst checkParentScenesSecurity.simps) simp
  next
    case False
    show ?thesis
    proof (cases "find (\<lambda>s. s_slug s = the (s_parent scene)) (a_scenes (application schema))")
      case None
      with False show ?thesis by (subst checkParentScenesSecurity.simps) simp
    next
      case (Some parentScene)
      with False have p: "parentSceneOf schema scene = Some parentScene"
        by (simp add: parentSceneOf_def)
      then have "ancestorAt schema scene 0 = Some parentScene" by simp
      with "1.prems" have none: "checkSceneSecurity parentScene = None"
        by blast
      have "\<forall>n a. ancestorAt schema parentScene n = Some a \<longrightarrow> checkSceneSecurity a = None"
      proof (intro allI impI)
        fix n a
        assume "ancestorAt schema parentScene n = Some a"
        with p have "ancestorAt schema scene (Suc n) = Some a" by simp
        with "1.prems" show "checkSceneSecurity a = None" by blast
      qed
      from "1.IH" [OF False Some none this]
      have "checkParentScenesSecurity parentScene schema
              (insert (the (s_parent scene)) visited) = None" .
      with False Some none show ?thesis
        by (subst checkParentScenesSecurity.simps) simp
    qed
  qed
qed

text \<open>
  C4. \<open>checkParentScenesSecurity\<close> terminates on every input: each recursive call adds
  to the visited set a scene slug that was not yet in it, so the number of scene slugs
  bounds the walk (the termination proof of the function). Its result is fixed by the
  ancestors of the scene: when none of them is decisive by itself the walk returns no
  verdict, on a cyclic parent chain as on any other; when one of them is, the walk
  returns the verdict of the first decisive ancestor on the chain, also on a cycle.
\<close>

theorem checkParentScenesSecurity_first_decisive_ancestor:
  "((\<forall>n a. ancestorAt schema scene n = Some a \<longrightarrow> checkSceneSecurity a = None) \<longrightarrow>
      checkParentScenesSecurity scene schema visited = None) \<and>
   (\<forall>n a v.
      ancestorAt schema scene n = Some a \<and> checkSceneSecurity a = Some v \<and>
      (\<forall>k<n. \<forall>b. ancestorAt schema scene k = Some b \<longrightarrow> checkSceneSecurity b = None) \<longrightarrow>
      checkParentScenesSecurity scene schema {} = Some v)"
proof (intro conjI allI impI)
  assume "\<forall>n a. ancestorAt schema scene n = Some a \<longrightarrow> checkSceneSecurity a = None"
  then show "checkParentScenesSecurity scene schema visited = None"
    by (rule walk_without_decisive)
next
  fix n a v
  assume h: "ancestorAt schema scene n = Some a \<and> checkSceneSecurity a = Some v \<and>
      (\<forall>k<n. \<forall>b. ancestorAt schema scene k = Some b \<longrightarrow> checkSceneSecurity b = None)"
  then show "checkParentScenesSecurity scene schema {} = Some v"
    by (intro walk_reaches_first_decisive [of schema scene n a v "{}"]) simp_all
qed

lemma cycle_parents:
  "parentSceneOf (appOf [] [cycleSceneA, cycleSceneB]) cycleSceneA = Some cycleSceneB"
  "parentSceneOf (appOf [] [cycleSceneA, cycleSceneB]) cycleSceneB = Some cycleSceneA"
  by (simp_all add: parentSceneOf_def appOf_def cycleSceneA_def cycleSceneB_def plainScene_def
      strTruthy_def)

lemma cycle_ancestors:
  "(ancestorAt (appOf [] [cycleSceneA, cycleSceneB]) cycleSceneA n = Some a \<longrightarrow>
      a = cycleSceneA \<or> a = cycleSceneB) \<and>
   (ancestorAt (appOf [] [cycleSceneA, cycleSceneB]) cycleSceneB n = Some a \<longrightarrow>
      a = cycleSceneA \<or> a = cycleSceneB)"
  by (induction n) (auto simp: cycle_parents)

lemma chain_parents:
  "parentSceneOf chainApp chainLeaf = Some chainMid"
  "parentSceneOf chainApp chainMid = Some chainTop"
  by (simp_all add: parentSceneOf_def chainApp_def appOf_def chainLeaf_def chainMid_def
      chainTop_def plainScene_def strTruthy_def)

theorem checkParentScenesSecurity_first_decisive_ancestor_witness:
  "ancestorAt chainApp chainLeaf 0 = Some chainMid \<and> checkSceneSecurity chainMid = None \<and>
   ancestorAt chainApp chainLeaf (Suc 0) = Some chainTop \<and>
   checkSceneSecurity chainTop = Some AUTHENTICATED \<and>
   checkParentScenesSecurity chainLeaf chainApp {} = Some AUTHENTICATED \<and>
   parentSceneOf (appOf [] [cycleSceneA, cycleSceneB]) cycleSceneA = Some cycleSceneB \<and>
   parentSceneOf (appOf [] [cycleSceneA, cycleSceneB]) cycleSceneB = Some cycleSceneA \<and>
   checkSceneSecurity cycleSceneA = None \<and> checkSceneSecurity cycleSceneB = None \<and>
   checkParentScenesSecurity cycleSceneA (appOf [] [cycleSceneA, cycleSceneB]) {} = None"
proof -
  have a: "checkSceneSecurity cycleSceneA = None"
    by (simp add: checkSceneSecurity_def cycleSceneA_def plainScene_def nonEmptyProfiles_def
        toLowerCase_def toLowerChar_def securityKeywords_def)
  have b: "checkSceneSecurity cycleSceneB = None"
    by (simp add: checkSceneSecurity_def cycleSceneB_def plainScene_def nonEmptyProfiles_def
        toLowerCase_def toLowerChar_def securityKeywords_def)
  have m: "checkSceneSecurity chainMid = None"
    by (simp add: checkSceneSecurity_def chainMid_def plainScene_def nonEmptyProfiles_def
        toLowerCase_def toLowerChar_def securityKeywords_def)
  have t: "checkSceneSecurity chainTop = Some AUTHENTICATED"
    by (simp add: checkSceneSecurity_def chainTop_def plainScene_def)
  have a0: "ancestorAt chainApp chainLeaf 0 = Some chainMid"
    and a1: "ancestorAt chainApp chainLeaf (Suc 0) = Some chainTop"
    by (simp_all add: chain_parents)
  have before: "\<forall>k<Suc 0. \<forall>b. ancestorAt chainApp chainLeaf k = Some b \<longrightarrow>
      checkSceneSecurity b = None"
    using a0 m by simp
  have none: "\<forall>n a. ancestorAt (appOf [] [cycleSceneA, cycleSceneB]) cycleSceneA n = Some a \<longrightarrow>
      checkSceneSecurity a = None"
    using a b cycle_ancestors by blast
  note walk = checkParentScenesSecurity_first_decisive_ancestor
  from walk [where schema = chainApp and scene = chainLeaf, THEN conjunct2, rule_format,
      of "Suc 0" chainTop AUTHENTICATED] a1 t before
  have chain: "checkParentScenesSecurity chainLeaf chainApp {} = Some AUTHENTICATED"
    by blast
  from walk [where schema = "appOf [] [cycleSceneA, cycleSceneB]" and scene = cycleSceneA
      and visited = "{}", THEN conjunct1] none
  have cycle: "checkParentScenesSecurity cycleSceneA (appOf [] [cycleSceneA, cycleSceneB]) {}
      = None"
    by blast
  from a0 m a1 t chain cycle_parents a b cycle show ?thesis
    by blast
qed

text \<open>
  On a cycle with a scene that is itself decisive, the walk does return a verdict.
\<close>

theorem checkParentScenesSecurity_cycle_counterexample:
  "parentSceneOf (appOf [] [cycleSceneA, cycleSceneBAuth]) cycleSceneA = Some cycleSceneBAuth \<and>
   parentSceneOf (appOf [] [cycleSceneA, cycleSceneBAuth]) cycleSceneBAuth = Some cycleSceneA \<and>
   checkParentScenesSecurity cycleSceneA (appOf [] [cycleSceneA, cycleSceneBAuth]) {}
     = Some AUTHENTICATED"
proof -
  have p: "parentSceneOf (appOf [] [cycleSceneA, cycleSceneBAuth]) cycleSceneA = Some cycleSceneBAuth"
    "parentSceneOf (appOf [] [cycleSceneA, cycleSceneBAuth]) cycleSceneBAuth = Some cycleSceneA"
    by (simp_all add: parentSceneOf_def appOf_def cycleSceneA_def cycleSceneBAuth_def
        cycleSceneB_def plainScene_def strTruthy_def)
  have "checkParentScenesSecurity cycleSceneA (appOf [] [cycleSceneA, cycleSceneBAuth]) {}
     = Some AUTHENTICATED"
    by (subst checkParentScenesSecurity.simps)
       (simp add: cycleSceneA_def cycleSceneBAuth_def cycleSceneB_def plainScene_def appOf_def
          strTruthy_def checkSceneSecurity_def)
  with p show ?thesis by simp
qed

section \<open>Child pages\<close>

text \<open>
  C5. \<open>isChildPage\<close> is false exactly when \<open>scene.parent\<close> is absent, null or
  the empty string. For a child page \<open>getParentParamSlug\<close> returns \<open>scene.parent\<close> followed
  by \<open>_id\<close>; when the parent resolves to a scene this is that scene's slug followed by
  \<open>_id\<close>, and when it does not resolve the raw reference is used all the same.
\<close>

theorem isChildPage_getParentParamSlug:
  "(isChildPage scene = False \<longleftrightarrow> s_parent scene = None \<or> s_parent scene = Some []) \<and>
   (isChildPage scene \<longrightarrow>
      (\<exists>p. s_parent scene = Some p \<and>
           getParentParamSlug scene schema = Some (p @ ''_id'') \<and>
           (\<forall>parentScene.
              find (\<lambda>s. s_slug s = p) (a_scenes (application schema)) = Some parentScene \<longrightarrow>
              getParentParamSlug scene schema = Some (s_slug parentScene @ ''_id''))))"
proof (intro conjI impI)
  show "isChildPage scene = False \<longleftrightarrow> s_parent scene = None \<or> s_parent scene = Some []"
    by (cases "s_parent scene") (simp_all add: isChildPage_def strTruthy_def)
next
  assume child: "isChildPage scene"
  then obtain p where p: "s_parent scene = Some p"
    by (cases "s_parent scene") (simp_all add: isChildPage_def strTruthy_def)
  have slug: "s_slug x = p"
    if "find (\<lambda>s. s_slug s = p) (a_scenes (application schema)) = Some x" for x
    using that find_Some_slug by blast
  have res: "getParentParamSlug scene schema = Some (p @ ''_id'')"
    using child p slug by (simp add: getParentParamSlug_def split: option.splits)
  show "\<exists>p. s_parent scene = Some p \<and>
           getParentParamSlug scene schema = Some (p @ ''_id'') \<and>
           (\<forall>parentScene.
              find (\<lambda>s. s_slug s = p) (a_scenes (application schema)) = Some parentScene \<longrightarrow>
              getParentParamSlug scene schema = Some (s_slug parentScene @ ''_id''))"
    using p res slug by auto
qed

theorem isChildPage_getParentParamSlug_witness:
  "isChildPage orphanScene \<and>
   find (\<lambda>s. s_slug s = ''gone'') (a_scenes (application (appOf [] [orphanScene]))) = None \<and>
   getParentParamSlug orphanScene (appOf [] [orphanScene]) = Some ''gone_id'' \<and>
   isChildPage cycleSceneA \<and>
   find (\<lambda>s. s_slug s = ''b'') (a_scenes (application (appOf [] [cycleSceneA, cycleSceneB])))
     = Some cycleSceneB \<and>
   getParentParamSlug cycleSceneA (appOf [] [cycleSceneA, cycleSceneB]) = Some ''b_id''"
  using isChildPage_getParentParamSlug [of orphanScene "appOf [] [orphanScene]"]
        isChildPage_getParentParamSlug [of cycleSceneA "appOf [] [cycleSceneA, cycleSceneB]"]
  by (simp add: orphanScene_def cycleSceneA_def cycleSceneB_def plainScene_def appOf_def
        isChildPage_def strTruthy_def)

text \<open>A parent that is present and not null, and yet no child page.\<close>

theorem isChildPage_empty_parent_counterexample:
  "isChildPage emptyParentScene = False \<and> s_parent emptyParentScene \<noteq> None"
  by (simp add: emptyParentScene_def plainScene_def isChildPage_def strTruthy_def)

section \<open>The field resolver\<close>

lemma find_Some_set: "find P xs = Some x \<Longrightarrow> x \<in> set xs \<and> P x"
  by (induction xs) (auto split: if_splits)

text \<open>
  C8. The field resolver returns the direct match on the source object's own fields when
  there is one. Otherwise it takes the first connection-typed field of the source
  object that names a relationship target, and looks the key up among the fields of
  that target object: one hop, no further. With no match there either, or no such
  target, the result is not-found. Whatever is found carries the key asked for and is a
  field of the source object or of an object that a connection field of the source
  object names.
\<close>

theorem findFieldByKey_lookup_order:
  "(\<forall>direct. find (\<lambda>field. f_key field = fieldKey) (o_fields sourceObject) = Some direct \<longrightarrow>
      findFieldByKey fieldKey sourceObject schema = Some direct) \<and>
   (find (\<lambda>field. f_key field = fieldKey) (o_fields sourceObject) = None \<longrightarrow>
      findFieldByKey fieldKey sourceObject schema =
        (case find (\<lambda>field. f_type field = ''connection'' \<and> hasRelationshipObject field)
                (o_fields sourceObject) of
           None \<Rightarrow> None
         | Some connectionField \<Rightarrow>
            (case find (\<lambda>obj. o_key obj = rel_object (the (f_relationship connectionField)))
                    (a_objects (application schema)) of
               None \<Rightarrow> None
             | Some target \<Rightarrow> find (\<lambda>field. f_key field = fieldKey) (o_fields target)))) \<and>
   (\<forall>found. findFieldByKey fieldKey sourceObject schema = Some found \<longrightarrow>
      f_key found = fieldKey \<and>
      (found \<in> set (o_fields sourceObject) \<or>
       (\<exists>connectionField \<in> set (o_fields sourceObject).
          f_type connectionField = ''connection'' \<and>
          (\<exists>target \<in> set (a_objects (application schema)).
             Some (o_key target) = map_option rel_object (f_relationship connectionField) \<and>
             found \<in> set (o_fields target)))))"
proof (intro conjI allI impI)
  fix direct
  assume "find (\<lambda>field. f_key field = fieldKey) (o_fields sourceObject) = Some direct"
  then show "findFieldByKey fieldKey sourceObject schema = Some direct"
    by (simp add: findFieldByKey_def)
next
  assume "find (\<lambda>field. f_key field = fieldKey) (o_fields sourceObject) = None"
  then show "findFieldByKey fieldKey sourceObject schema =
        (case find (\<lambda>field. f_type field = ''connection'' \<and> hasRelationshipObject field)
                (o_fields sourceObject) of
           None \<Rightarrow> None
         | Some connectionField \<Rightarrow>
            (case find (\<lambda>obj. o_key obj = rel_object (the (f_relationship connectionField)))
                    (a_objects (application schema)) of
               None \<Rightarrow> None
             | Some target \<Rightarrow> find (\<lambda>field. f_key field = fieldKey) (o_fields target)))"
    by (simp add: findFieldByKey_def)
next
  fix found
  assume res: "findFieldByKey fieldKey sourceObject schema = Some found"
  show "f_key found = fieldKey"
    using res unfolding findFieldByKey_def
    by (auto split: option.splits dest: find_Some_set)
next
  fix found
  assume res: "findFieldByKey fieldKey sourceObject schema = Some found"
  show "found \<in> set (o_fields sourceObject) \<or>
       (\<exists>connectionField \<in> set (o_fields sourceObject).
          f_type connectionField = ''connection'' \<and>
          (\<exists>target \<in> set (a_objects (application schema)).
             Some (o_key target) = map_option rel_object (f_relationship connectionField) \<and>
             found \<in> set (o_fields target)))"
  proof (cases "find (\<lambda>field. f_key field = fieldKey) (o_fields sourceObject)")
    case (Some direct)
    with res have "found = direct" by (simp add: findFieldByKey_def)
    with Some show ?thesis using find_Some_set by fastforce
  next
    case None
    with res obtain c t where
      c: "find (\<lambda>field. f_type field = ''connection'' \<and> hasRelationshipObject field)
            (o_fields sourceObject) = Some c"
      and t: "find (\<lambda>obj. o_key obj = rel_object (the (f_relationship c)))
            (a_objects (application schema)) = Some t"
      and f: "find (\<lambda>field. f_key field = fieldKey) (o_fields t) = Some found"
      by (auto simp: findFieldByKey_def split: option.splits)
    from find_Some_set [OF c] have c1: "c \<in> set (o_fields sourceObject)"
      and c2: "f_type c = ''connection''" and c3: "hasRelationshipObject c" by auto
    from c3 obtain rel where rel: "f_relationship c = Some rel"
      by (auto simp: hasRelationshipObject_def split: option.splits)
    from find_Some_set [OF t] rel have t1: "t \<in> set (a_objects (application schema))"
      and t2: "Some (o_key t) = map_option rel_object (f_relationship c)" by auto
    from find_Some_set [OF f] have "found \<in> set (o_fields t)" by simp
    with c1 c2 t1 t2 show ?thesis by blast
  qed
qed

theorem findFieldByKey_lookup_order_witness:
  "find (\<lambda>field. f_key field = ''field_6'') (o_fields exampleObject2) = Some exampleField6 \<and>
   findFieldByKey ''field_6'' exampleObject2 exampleObjects = Some exampleField6 \<and>
   find (\<lambda>field. f_key field = ''field_1'') (o_fields exampleObject2) = None \<and>
   findFieldByKey ''field_1'' exampleObject2 exampleObjects = Some exampleField1 \<and>
   find (\<lambda>field. f_key field = ''field_1'') (o_fields exampleObject3) = None \<and>
   findFieldByKey ''field_1'' exampleObject3 exampleObjects = None"
proof -
  have d6: "find (\<lambda>field. f_key field = ''field_6'') (o_fields exampleObject2)
              = Some exampleField6"
    by (simp add: exampleObject2_def exampleField6_def)
  have n2: "find (\<lambda>field. f_key field = ''field_1'') (o_fields exampleObject2) = None"
    by (simp add: exampleObject2_def exampleField6_def exampleField7_def)
  have n3: "find (\<lambda>field. f_key field = ''field_1'') (o_fields exampleObject3) = None"
    by (simp add: exampleObject3_def exampleField9_def)
  have r6: "findFieldByKey ''field_6'' exampleObject2 exampleObjects = Some exampleField6"
    using findFieldByKey_lookup_order [of "''field_6''" exampleObject2 exampleObjects] d6
    by blast
  have "findFieldByKey ''field_1'' exampleObject2 exampleObjects =
      (case find (\<lambda>field. f_type field = ''connection'' \<and> hasRelationshipObject field)
                (o_fields exampleObject2) of
           None \<Rightarrow> None
         | Some connectionField \<Rightarrow>
            (case find (\<lambda>obj. o_key obj = rel_object (the (f_relationship connectionField)))
                    (a_objects (application exampleObjects)) of
               None \<Rightarrow> None
             | Some target \<Rightarrow> find (\<lambda>field. f_key field = ''field_1'') (o_fields target)))"
    using findFieldByKey_lookup_order [of "''field_1''" exampleObject2 exampleObjects] n2
    by blast
  then have r2: "findFieldByKey ''field_1'' exampleObject2 exampleObjects = Some exampleField1"
    by (simp add: exampleObjects_def appOf_def exampleObject1_def exampleObject2_def
        exampleObject3_def exampleField1_def exampleField6_def exampleField7_def
        hasRelationshipObject_def)
  have "findFieldByKey ''field_1'' exampleObject3 exampleObjects =
      (case find (\<lambda>field. f_type field = ''connection'' \<and> hasRelationshipObject field)
                (o_fields exampleObject3) of
           None \<Rightarrow> None
         | Some connectionField \<Rightarrow>
            (case find (\<lambda>obj. o_key obj = rel_object (the (f_relationship connectionField)))
                    (a_objects (application exampleObjects)) of
               None \<Rightarrow> None
             | Some target \<Rightarrow> find (\<lambda>field. f_key field = ''field_1'') (o_fields target)))"
    using findFieldByKey_lookup_order [of "''field_1''" exampleObject3 exampleObjects] n3
    by blast
  then have r3: "findFieldByKey ''field_1'' exampleObject3 exampleObjects = None"
    by (simp add: exampleObjects_def appOf_def exampleObject1_def exampleObject2_def
        exampleObject3_def exampleField1_def exampleField6_def exampleField7_def
        exampleField9_def hasRelationshipObject_def)
  from d6 r6 n2 r2 n3 r3 show ?thesis by blast
qed

section \<open>The field keys of a details view\<close>

lemma set_setAdd: "set (setAdd acc k) = insert k (set acc)"
  by (auto simp: setAdd_def)

lemma distinct_setAdd: "distinct acc \<Longrightarrow> distinct (setAdd acc k)"
  by (simp add: setAdd_def)

lemma set_foldl_union:
  assumes "\<And>acc x. set (step acc x) = set acc \<union> K x"
  shows "set (foldl step acc xs) = set acc \<union> (\<Union>x \<in> set xs. K x)"
  by (induction xs arbitrary: acc) (auto simp: assms)

lemma distinct_foldl:
  assumes "\<And>acc x. distinct acc \<Longrightarrow> distinct (step acc x)"
  shows "distinct acc \<Longrightarrow> distinct (foldl step acc xs)"
  by (induction xs arbitrary: acc) (auto simp: assms)

lemma truthyKeys_simps:
  "truthyKeys [] = {}"
  "truthyKeys (xs @ ys) = truthyKeys xs \<union> truthyKeys ys"
  "truthyKeys (concat xss) = (\<Union>xs \<in> set xss. truthyKeys xs)"
  by (auto simp: truthyKeys_def)

lemma set_addGroupFields:
  "set (addGroupFields acc groups) =
     set acc \<union> truthyKeys (concat (map (\<lambda>group.
       concat (map (\<lambda>column.
         concat (map (\<lambda>field. presentKey (vf_key field)) (orNil (gc_fields column))))
         (orNil (g_columns group)))) groups))"
proof -
  have field: "set (if strTruthy (vf_key field) then setAdd acc (the (vf_key field)) else acc)
      = set acc \<union> truthyKeys (presentKey (vf_key field))"
    for acc and field :: KnackViewField
    by (cases "vf_key field")
       (auto simp: strTruthy_def presentKey_def truthyKeys_def set_setAdd)
  show ?thesis
    unfolding addGroupFields_def
    by (simp add: set_foldl_union [where K = "\<lambda>group. truthyKeys (concat (map (\<lambda>column.
         concat (map (\<lambda>field. presentKey (vf_key field)) (orNil (gc_fields column))))
         (orNil (g_columns group))))"]
        set_foldl_union [where K = "\<lambda>column. truthyKeys
         (concat (map (\<lambda>field. presentKey (vf_key field)) (orNil (gc_fields column))))"]
        set_foldl_union [where K = "\<lambda>field. truthyKeys (presentKey (vf_key field))"]
        field truthyKeys_simps)
qed

lemma set_addColumnField:
  "set (addColumnField acc field) = set acc \<union> truthyKeys (presentKey (cf_key field))"
  by (cases "cf_key field")
     (auto simp: addColumnField_def strTruthy_def presentKey_def truthyKeys_def set_setAdd)

lemma set_addColumnData:
  "set (addColumnData acc columnData) = set acc \<union> truthyKeys (columnDataKeys columnData)"
  by (cases columnData)
     (simp_all add: addColumnData_def set_addColumnField truthyKeys_simps
        set_foldl_union [where K = "\<lambda>field. truthyKeys (presentKey (cf_key field))"])

lemma set_addColumnGroups:
  "set (addColumnGroups acc columns) =
     set acc \<union> truthyKeys (concat (map (\<lambda>column.
       concat (map (\<lambda>group. concat (map columnDataKeys (orNil (cg_columns group))))
         (orNil (c_groups column)))) columns))"
  unfolding addColumnGroups_def
  by (simp add: set_foldl_union [where K = "\<lambda>column. truthyKeys (concat (map (\<lambda>group.
         concat (map columnDataKeys (orNil (cg_columns group)))) (orNil (c_groups column))))"]
        set_foldl_union [where K = "\<lambda>group. truthyKeys
         (concat (map columnDataKeys (orNil (cg_columns group))))"]
        set_foldl_union [where K = "\<lambda>columnData. truthyKeys (columnDataKeys columnData)"]
        set_addColumnData truthyKeys_simps)

lemma distinct_addGroupFields: "distinct acc \<Longrightarrow> distinct (addGroupFields acc groups)"
  unfolding addGroupFields_def
  by (intro distinct_foldl) (simp_all add: distinct_setAdd)

lemma distinct_addColumnField: "distinct acc \<Longrightarrow> distinct (addColumnField acc field)"
  by (simp add: addColumnField_def distinct_setAdd)

lemma distinct_addColumnData: "distinct acc \<Longrightarrow> distinct (addColumnData acc columnData)"
  by (cases columnData)
     (simp_all add: addColumnData_def distinct_addColumnField distinct_foldl)

lemma distinct_addColumnGroups: "distinct acc \<Longrightarrow> distinct (addColumnGroups acc columns)"
  unfolding addColumnGroups_def
  by (intro distinct_foldl) (simp_all add: distinct_addColumnData)

lemma details_keys:
  assumes "v_type view = ''details''"
  shows "set (extractFieldKeysFromView view) =
           truthyKeys (groupShapeKeys view) \<union> truthyKeys (columnShapeKeys view)"
    and "distinct (extractFieldKeysFromView view)"
  using assms
  by (simp_all add: extractFieldKeysFromView_def set_addColumnGroups set_addGroupFields
        groupShapeKeys_def columnShapeKeys_def distinct_addColumnGroups
        distinct_addGroupFields)

text \<open>
  C9. The extractor walks both nested shapes of a details view: what it returns for a
  view written in the first shape is the set of (non-empty) keys listed there, and
  likewise for the alternative shape, whose column data may be a single field or an
  array of fields. So two details views that list the same keys, one in each shape,
  give the same set of extracted keys; the result never holds a key twice.
\<close>

theorem details_shapes_same_keys:
  assumes "v_type viewA = ''details''" and "v_type viewB = ''details''"
    and "columnShapeKeys viewA = []" and "groupShapeKeys viewB = []"
    and "set (groupShapeKeys viewA) = set (columnShapeKeys viewB)"
  shows "set (extractFieldKeysFromView viewA) = set (groupShapeKeys viewA) - {[]} \<and>
         set (extractFieldKeysFromView viewB) = set (columnShapeKeys viewB) - {[]} \<and>
         set (extractFieldKeysFromView viewA) = set (extractFieldKeysFromView viewB) \<and>
         distinct (extractFieldKeysFromView viewA) \<and>
         distinct (extractFieldKeysFromView viewB)"
  using assms details_keys [of viewA] details_keys [of viewB]
  by (simp add: truthyKeys_def)

theorem details_shapes_same_keys_witness:
  "v_type exampleDetailsGroups = ''details'' \<and> v_type exampleDetailsColumns = ''details'' \<and>
   columnShapeKeys exampleDetailsGroups = [] \<and> groupShapeKeys exampleDetailsColumns = [] \<and>
   groupShapeKeys exampleDetailsGroups = [''field_1'', ''field_2''] \<and>
   columnShapeKeys exampleDetailsColumns = [''field_2'', ''field_1'', ''field_2''] \<and>
   set (extractFieldKeysFromView exampleDetailsGroups) =
     set (extractFieldKeysFromView exampleDetailsColumns) \<and>
   distinct (extractFieldKeysFromView exampleDetailsColumns)"
proof -
  have t: "v_type exampleDetailsGroups = ''details''" "v_type exampleDetailsColumns = ''details''"
    by (simp_all add: exampleDetailsGroups_def exampleDetailsColumns_def plainView_def)
  have e: "columnShapeKeys exampleDetailsGroups = []" "groupShapeKeys exampleDetailsColumns = []"
    by (simp_all add: exampleDetailsGroups_def exampleDetailsColumns_def plainView_def
        columnShapeKeys_def groupShapeKeys_def orNil_def)
  have g: "groupShapeKeys exampleDetailsGroups = [''field_1'', ''field_2'']"
    by (simp add: exampleDetailsGroups_def plainView_def groupShapeKeys_def orNil_def
        keyedField_def presentKey_def)
  have c: "columnShapeKeys exampleDetailsColumns = [''field_2'', ''field_1'', ''field_2'']"
    by (simp add: exampleDetailsColumns_def plainView_def columnShapeKeys_def orNil_def
        presentKey_def)
  have s: "set (groupShapeKeys exampleDetailsGroups) = set (columnShapeKeys exampleDetailsColumns)"
    by (simp add: g c insert_commute)
  from details_shapes_same_keys [OF t e s] t e g c show ?thesis by blast
qed

section \<open>The required list of component schemas\<close>

lemma map_of_deleteProp:
  "map_of (deleteProp obj k) k' = (if k' = k then None else map_of obj k')"
  unfolding deleteProp_def by (induction obj) auto

lemma set_setProp: "e \<in> set (setProp obj k v) \<Longrightarrow> e = (k, v) \<or> e \<in> set obj"
  by (induction obj) (auto split: if_splits)

lemma foldl_invariant:
  assumes "P acc" and "\<And>acc x. P acc \<Longrightarrow> P (step acc x)"
  shows "P (foldl step acc xs)"
  using assms(1) by (induction xs arbitrary: acc) (auto intro: assms(2))

lemma hasRequiredArray_iff:
  "hasRequiredArray s \<longleftrightarrow> (\<exists>req. map_of s ''required'' = Some (JArr req))"
  by (auto simp: hasRequiredArray_def split: option.splits json.splits)

lemma hasRequiredArray_setProperty: "hasRequiredArray s \<Longrightarrow> hasRequiredArray (setProperty s k v)"
  by (auto simp: hasRequiredArray_iff setProperty_def map_of_setProp
      split: option.splits json.splits)

lemma hasRequiredArray_pushRequired: "hasRequiredArray s \<Longrightarrow> hasRequiredArray (pushRequired s k)"
  by (auto simp: hasRequiredArray_iff pushRequired_def map_of_setProp
      split: option.splits json.splits)

lemma hasRequiredArray_addFieldProperty:
  "hasRequiredArray s \<Longrightarrow> hasRequiredArray (addFieldProperty s field)"
  by (simp add: addFieldProperty_def Let_def hasRequiredArray_setProperty
      hasRequiredArray_pushRequired)

lemma hasRequiredArray_initial:
  "hasRequiredArray (objectLiteral
     [(''type'', t), (''title'', ti), (''description'', d), (''properties'', JObj []),
      (''required'', JArr [])])"
  by (simp add: hasRequiredArray_def objectLiteral_def objectAssign_def)

lemma requiredOk_dropEmptyRequired:
  "hasRequiredArray s \<Longrightarrow> requiredOk (JObj (dropEmptyRequired s))"
  by (auto simp: hasRequiredArray_iff requiredOk_def dropEmptyRequired_def map_of_deleteProp
      split: option.splits json.splits list.splits)

lemma hasRequiredArray_foldl:
  assumes "hasRequiredArray acc"
    and "\<And>acc x. hasRequiredArray acc \<Longrightarrow> hasRequiredArray (step acc x)"
  shows "hasRequiredArray (foldl step acc xs)"
  using assms by (rule foldl_invariant [where P = hasRequiredArray])

lemma requiredOk_foldl:
  assumes "\<forall>e \<in> set acc. requiredOk (snd e)"
    and "\<And>acc x. \<forall>e \<in> set acc. requiredOk (snd e) \<Longrightarrow> \<forall>e \<in> set (step acc x). requiredOk (snd e)"
  shows "\<forall>e \<in> set (foldl step acc xs). requiredOk (snd e)"
  using assms by (rule foldl_invariant [where P = "\<lambda>acc. \<forall>e \<in> set acc. requiredOk (snd e)"])

lemma requiredOk_objectToSchema: "requiredOk (JObj (snd (objectToSchema obj)))"
  unfolding objectToSchema_def Let_def snd_conv
proof (rule requiredOk_dropEmptyRequired, rule hasRequiredArray_foldl)
  show "hasRequiredArray (objectLiteral
     [(''type'', JStr ''object''), (''title'', JStr (o_name obj)),
      (''description'', JStr (o_singular obj @ '' object'')), (''properties'', JObj []),
      (''required'', JArr [])])"
    by (rule hasRequiredArray_initial)
next
  fix acc x
  assume "hasRequiredArray acc"
  then show "hasRequiredArray
      (if \<not> shouldIncludeField x then acc else addFieldProperty acc x)"
    by (simp add: hasRequiredArray_addFieldProperty)
qed

lemma requiredOk_generateViewSchema:
  assumes "generateViewSchema view scene schema = Some viewSchema"
  shows "requiredOk (JObj viewSchema)"
proof -
  from assms obtain sourceObject where
    "viewSchema = dropEmptyRequired (foldl (\<lambda>acc fieldKey.
        (case findFieldByKey fieldKey sourceObject schema of
           None \<Rightarrow> acc
         | Some field \<Rightarrow>
             if shouldIncludeField field then addFieldProperty acc field else acc))
       (objectLiteral
          [(''type'', JStr ''object''),
           (''title'', JStr (v_name view @ '' in '' @ s_name scene)),
           (''description'',
              JStr (''Schema for '' @ v_name view @ '' view in '' @ s_name scene)),
           (''properties'', JObj []),
           (''required'', JArr [])])
       (extractFieldKeysFromView view))"
    by (auto simp: generateViewSchema_def Let_def split: option.splits if_splits)
  moreover have "hasRequiredArray (foldl (\<lambda>acc fieldKey.
        (case findFieldByKey fieldKey sourceObject schema of
           None \<Rightarrow> acc
         | Some field \<Rightarrow>
             if shouldIncludeField field then addFieldProperty acc field else acc))
       (objectLiteral
          [(''type'', JStr ''object''),
           (''title'', JStr (v_name view @ '' in '' @ s_name scene)),
           (''description'',
              JStr (''Schema for '' @ v_name view @ '' view in '' @ s_name scene)),
           (''properties'', JObj []),
           (''required'', JArr [])])
       (extractFieldKeysFromView view))"
    by (rule hasRequiredArray_foldl)
       (simp_all add: hasRequiredArray_initial hasRequiredArray_addFieldProperty
          split: option.splits)
  ultimately show ?thesis
    by (simp add: requiredOk_dropEmptyRequired)
qed

lemma requiredOk_addViewComponent:
  assumes "\<forall>e \<in> set schemas. requiredOk (snd e)"
  shows "\<forall>e \<in> set (addViewComponent schema scene schemas view). requiredOk (snd e)"
  using assms
  by (auto simp: addViewComponent_def split: option.splits
      dest!: set_setProp dest: requiredOk_generateViewSchema)

text \<open>
  C10. Every object component schema and every view component schema that the two
  component generators emit either has no \<open>required\<close> key or has a non-empty
  \<open>required\<close> array: an empty array is removed before the schema is returned.
\<close>

theorem component_schemas_required_nonempty:
  "(\<forall>e \<in> set (schemasOf (generateComponents schema)). requiredOk (snd e)) \<and>
   (\<forall>e \<in> set (schemasOf (generateViewComponents schema)). requiredOk (snd e))"
proof
  have "\<forall>e \<in> set (foldl (\<lambda>schemas obj.
            (case objectToSchema obj of (name, schemaObj) \<Rightarrow> setProp schemas name (JObj schemaObj)))
           [] objs). requiredOk (snd e)" for objs
  proof (rule requiredOk_foldl)
    show "\<forall>e \<in> set []. requiredOk (snd e)" by simp
  next
    fix acc :: "(string \<times> json) list" and obj
    assume inv: "\<forall>e \<in> set acc. requiredOk (snd e)"
    obtain name schemaObj where o: "objectToSchema obj = (name, schemaObj)"
      by (cases "objectToSchema obj")
    with requiredOk_objectToSchema [of obj] have "requiredOk (JObj schemaObj)" by simp
    with inv o show "\<forall>e \<in> set (case objectToSchema obj of
        (name, schemaObj) \<Rightarrow> setProp acc name (JObj schemaObj)). requiredOk (snd e)"
      by (auto dest!: set_setProp)
  qed
  then show "\<forall>e \<in> set (schemasOf (generateComponents schema)). requiredOk (snd e)"
    by (simp add: generateComponents_def schemasOf_def)
next
  have "\<forall>e \<in> set (foldl (\<lambda>schemas scene.
          foldl (addViewComponent schema scene) schemas (s_views scene)) [] scenes).
        requiredOk (snd e)" for scenes
  proof (rule requiredOk_foldl)
    show "\<forall>e \<in> set []. requiredOk (snd e)" by simp
  next
    fix acc :: "(string \<times> json) list" and scene
    assume "\<forall>e \<in> set acc. requiredOk (snd e)"
    then show "\<forall>e \<in> set (foldl (addViewComponent schema scene) acc (s_views scene)).
        requiredOk (snd e)"
      by (rule requiredOk_foldl) (rule requiredOk_addViewComponent)
  qed
  then show "\<forall>e \<in> set (schemasOf (generateViewComponents schema)). requiredOk (snd e)"
    by (simp add: generateViewComponents_def schemasOf_def)
qed

subsection \<open>The example application\<close>

lemma exampleField1_schema: "JObj (mapFieldTypeToSchema exampleField1) = exampleField1Schema"
  by (simp add: mapFieldTypeToSchema_def exampleField1_def exampleField1Schema_def
      objectLiteral_def objectAssign_def baseSchema_def spreadIf_def)

lemma exampleField1_fields:
  "f_key exampleField1 = ''field_1''" "f_required exampleField1"
  "f_type exampleField1 = ''short_text''"
  by (simp_all add: exampleField1_def)

lemma exampleObject1_schema:
  "objectToSchema exampleObject1 = (''object_1'', schemaObj) \<Longrightarrow>
   JObj schemaObj = exampleObject1Schema"
  by (auto simp: objectToSchema_def exampleObject1_def Let_def objectLiteral_def
      objectAssign_def shouldIncludeField_def addFieldProperty_def setProperty_def
      pushRequired_def dropEmptyRequired_def exampleField1_fields exampleField1_schema
      exampleObject1Schema_def)

lemma exampleApp_object_schemas:
  "schemasOf (generateComponents exampleApp) = [(''object_1'', exampleObject1Schema)]"
proof -
  obtain name schemaObj where o: "objectToSchema exampleObject1 = (name, schemaObj)"
    by (cases "objectToSchema exampleObject1")
  then have n: "name = ''object_1''"
    by (auto simp: objectToSchema_def Let_def exampleObject1_def)
  with o exampleObject1_schema have "JObj schemaObj = exampleObject1Schema" by blast
  with o n show ?thesis
    by (simp add: generateComponents_def schemasOf_def exampleApp_def appOf_def)
qed

lemma exampleListView_keys: "extractFieldKeysFromView exampleListView = [''field_1'']"
  by (simp add: extractFieldKeysFromView_def exampleListView_def plainView_def orNil_def
      addFieldColumns_def refTruthy_def setAdd_def)

lemma exampleApp_find_object:
  "find (\<lambda>obj. Some (o_key obj) = map_option src_object (v_source exampleListView))
     (a_objects (application exampleApp)) = Some exampleObject1"
  by (simp add: exampleApp_def appOf_def exampleListView_def plainView_def object1Source_def
      exampleObject1_def)

lemma exampleApp_find_field:
  "findFieldByKey ''field_1'' exampleObject1 exampleApp = Some exampleField1"
  by (simp add: findFieldByKey_def exampleObject1_def exampleField1_fields)

lemma exampleListView_schema:
  "map_option JObj (generateViewSchema exampleListView exampleScene1 exampleApp) =
     Some exampleListViewSchema"
proof -
  have names: "v_name exampleListView = ''Projects List''" "s_name exampleScene1 = ''Projects''"
    by (simp_all add: exampleListView_def plainView_def exampleScene1_def plainScene_def)
  show ?thesis
    by (simp add: generateViewSchema_def exampleApp_find_object exampleListView_keys Let_def
        exampleApp_find_field shouldIncludeField_def objectLiteral_def objectAssign_def
        addFieldProperty_def setProperty_def pushRequired_def dropEmptyRequired_def
        propertyCount_def exampleField1_fields exampleField1_schema names
        exampleListViewSchema_def)
qed

lemma exampleApp_view_schemas:
  "schemasOf (generateViewComponents exampleApp) =
     [(''view_projects_view_1'', exampleListViewSchema)]"
proof -
  from exampleListView_schema obtain schemaObj where
    s: "generateViewSchema exampleListView exampleScene1 exampleApp = Some schemaObj"
    and j: "JObj schemaObj = exampleListViewSchema"
    by (cases "generateViewSchema exampleListView exampleScene1 exampleApp") auto
  have src: "hasSourceObject exampleListView"
    by (simp add: hasSourceObject_def exampleListView_def plainView_def object1Source_def)
  have keys: "s_slug exampleScene1 = ''projects''" "v_key exampleListView = ''view_1''"
    "s_views exampleScene1 = [exampleListView]"
    by (simp_all add: exampleListView_def plainView_def exampleScene1_def plainScene_def)
  have "a_scenes (application exampleApp) = [exampleScene1]"
    by (simp add: exampleApp_def appOf_def)
  with s j src keys show ?thesis
    by (simp add: generateViewComponents_def schemasOf_def addViewComponent_def)
qed

theorem component_schemas_required_nonempty_witness:
  "(''object_1'', exampleObject1Schema) \<in> set (schemasOf (generateComponents exampleApp)) \<and>
   requiredOk exampleObject1Schema \<and>
   (''view_projects_view_1'', exampleListViewSchema)
      \<in> set (schemasOf (generateViewComponents exampleApp)) \<and>
   requiredOk exampleListViewSchema"
  using component_schemas_required_nonempty [of exampleApp]
  by (simp add: exampleApp_object_schemas exampleApp_view_schemas)

section \<open>View operations\<close>

lemma key_in_setProp: "k \<in> set (map fst (setProp obj k v))"
proof -
  have "map_of (setProp obj k v) k = Some v"
    by (simp add: map_of_setProp)
  then have "(k, v) \<in> set (setProp obj k v)"
    by (rule map_of_SomeD)
  then show ?thesis
    by force
qed

lemma securitySchemes_addAuthentication:
  "securitySchemes (addAuthentication security operation) =
     (if security = AUTHENTICATED then [''apiKey'', ''viewAuth''] else securitySchemes operation)"
  by (simp add: addAuthentication_def securitySchemes_def Let_def map_of_setProp
      objectLiteral_def objectAssign_def)

lemma responseCodes_addAuthentication:
  "security = AUTHENTICATED \<Longrightarrow>
   ''401'' \<in> set (responseCodes (addAuthentication security operation))"
  by (simp add: addAuthentication_def responseCodes_def Let_def map_of_setProp
      key_in_setProp del: set_map)

lemma operationParameters_addAuthentication:
  "operationParameters (addAuthentication security operation) = operationParameters operation"
  by (simp add: addAuthentication_def operationParameters_def Let_def map_of_setProp)

lemma objectLiteral_single: "objectLiteral [(k, v)] = [(k, v)]"
  by (simp add: objectLiteral_def objectAssign_def)

lemma generateViewGetOperation_reads:
  "securitySchemes (generateViewGetOperation view scene schema security ref child slug) =
     (if security = AUTHENTICATED then [''apiKey'', ''viewAuth''] else [''apiKey''])"
  "security = AUTHENTICATED \<Longrightarrow>
   ''401'' \<in> set (responseCodes
      (generateViewGetOperation view scene schema security ref child slug))"
  "set (parentIdParameters child slug (s_name scene)) \<subseteq> set (operationParameters
      (generateViewGetOperation view scene schema security ref child slug))"
  by (simp_all only: generateViewGetOperation_def Let_def securitySchemes_addAuthentication
      responseCodes_addAuthentication operationParameters_addAuthentication)
     (simp_all add: securitySchemes_def operationParameters_def map_of_objectLiteral
        objectLiteral_single)

lemma generateViewPostOperation_reads:
  "securitySchemes (generateViewPostOperation view scene schema security ref child slug) =
     (if security = AUTHENTICATED then [''apiKey'', ''viewAuth''] else [''apiKey''])"
  "security = AUTHENTICATED \<Longrightarrow>
   ''401'' \<in> set (responseCodes
      (generateViewPostOperation view scene schema security ref child slug))"
  "set (parentIdParameters child slug (s_name scene)) \<subseteq> set (operationParameters
      (generateViewPostOperation view scene schema security ref child slug))"
  by (simp_all only: generateViewPostOperation_def Let_def securitySchemes_addAuthentication
      responseCodes_addAuthentication operationParameters_addAuthentication)
     (simp_all add: securitySchemes_def operationParameters_def map_of_objectLiteral
        objectLiteral_single)

lemma generateViewPutOperation_reads:
  "securitySchemes (generateViewPutOperation view scene schema security ref child slug) =
     (if security = AUTHENTICATED then [''apiKey'', ''viewAuth''] else [''apiKey''])"
  "security = AUTHENTICATED \<Longrightarrow>
   ''401'' \<in> set (responseCodes
      (generateViewPutOperation view scene schema security ref child slug))"
  "set (parentIdParameters child slug (s_name scene)) \<subseteq> set (operationParameters
      (generateViewPutOperation view scene schema security ref child slug))"
  by (simp_all only: generateViewPutOperation_def Let_def securitySchemes_addAuthentication
      responseCodes_addAuthentication operationParameters_addAuthentication)
     (simp_all add: securitySchemes_def operationParameters_def map_of_objectLiteral
        objectLiteral_single)

lemma getParentParamSlug_child:
  assumes "isChildPage scene"
  shows "getParentParamSlug scene schema = Some (the (s_parent scene) @ ''_id'')"
proof -
  have "s_slug x = the (s_parent scene)"
    if "find (\<lambda>s. s_slug s = the (s_parent scene)) (a_scenes (application schema)) = Some x"
    for x
    using that find_Some_slug by blast
  with assms show ?thesis
    by (simp add: getParentParamSlug_def split: option.splits)
qed

lemma createParentIdParameter_reads:
  "map_of (createParentIdParameter name sceneName) ''name'' = Some (JStr name)"
  "map_of (createParentIdParameter name sceneName) ''in'' = Some (JStr ''query'')"
  "map_of (createParentIdParameter name sceneName) ''required'' = Some (JBool True)"
  by (simp_all add: createParentIdParameter_def map_of_objectLiteral)

lemma parentIdParameters_child:
  assumes "isChildPage scene"
  shows "parentIdParameters True (getParentParamSlug scene schema) sceneName =
           [JObj (createParentIdParameter (the (s_parent scene) @ ''_id'') sceneName)]"
  using assms
  by (simp add: getParentParamSlug_child parentIdParameters_def strTruthy_def)

text \<open>What the three operation generators have in common.\<close>

lemma view_operation_reads:
  assumes "operation = generateViewGetOperation view scene schema security ref child slug \<or>
           operation = generateViewPostOperation view scene schema security ref child slug \<or>
           operation = generateViewPutOperation view scene schema security ref child slug"
  shows "securitySchemes operation =
           (if security = AUTHENTICATED then [''apiKey'', ''viewAuth''] else [''apiKey''])"
    and "security = AUTHENTICATED \<Longrightarrow> ''401'' \<in> set (responseCodes operation)"
    and "set (parentIdParameters child slug (s_name scene)) \<subseteq> set (operationParameters operation)"
  using assms
    generateViewGetOperation_reads [where view = view and scene = scene and schema = schema
      and security = security and ref = ref and child = child and slug = slug]
    generateViewPostOperation_reads [where view = view and scene = scene and schema = schema
      and security = security and ref = ref and child = child and slug = slug]
    generateViewPutOperation_reads [where view = view and scene = scene and schema = schema
      and security = security and ref = ref and child = child and slug = slug]
  by auto

lemma generatePathsForView_shape:
  assumes "hasSourceObject view"
  shows "\<exists>operation.
     generatePathsForView view scene schema =
       [(''/scenes/'' @ s_key scene @ ''/views/'' @ v_key view @ ''/records'',
         JObj [(if v_type view \<noteq> ''form'' then ''get''
                else if v_action view = Some ''update'' then ''put'' else ''post'',
                JObj operation)])] \<and>
     (operation = generateViewGetOperation view scene schema
          (determineViewSecurity view scene schema)
          (''#/components/schemas/view_'' @ s_slug scene @ ''_'' @ v_key view)
          (isViewInChildPage view scene)
          (if isViewInChildPage view scene then getParentParamSlug scene schema else None) \<or>
      operation = generateViewPostOperation view scene schema
          (determineViewSecurity view scene schema)
          (''#/components/schemas/view_'' @ s_slug scene @ ''_'' @ v_key view)
          (isViewInChildPage view scene)
          (if isViewInChildPage view scene then getParentParamSlug scene schema else None) \<or>
      operation = generateViewPutOperation view scene schema
          (determineViewSecurity view scene schema)
          (''#/components/schemas/view_'' @ s_slug scene @ ''_'' @ v_key view)
          (isViewInChildPage view scene)
          (if isViewInChildPage view scene then getParentParamSlug scene schema else None))"
  using assms
  by (simp add: generatePathsForView_def Let_def objectLiteral_single)

text \<open>
  C6. For a scene and a view with a source object, path generation emits one path with
  one operation: GET unless the view is a form; for a form, PUT when its \<open>action\<close> is
  \<open>update\<close> and POST otherwise. The operation carries the application-id scheme
  \<open>apiKey\<close>; when the view is classified authenticated it also carries the bearer
  scheme \<open>viewAuth\<close> and a 401 response; on a child page its parameters include a
  required query parameter named by \<open>getParentParamSlug\<close>.
\<close>

theorem generatePathsForView_one_operation:
  assumes "hasSourceObject view"
  shows "\<exists>operation.
     generatePathsForView view scene schema =
       [(''/scenes/'' @ s_key scene @ ''/views/'' @ v_key view @ ''/records'',
         JObj [(if v_type view \<noteq> ''form'' then ''get''
                else if v_action view = Some ''update'' then ''put'' else ''post'',
                JObj operation)])] \<and>
     ''apiKey'' \<in> set (securitySchemes operation) \<and>
     (determineViewSecurity view scene schema = AUTHENTICATED \<longrightarrow>
        ''viewAuth'' \<in> set (securitySchemes operation) \<and>
        ''401'' \<in> set (responseCodes operation)) \<and>
     (isViewInChildPage view scene \<longrightarrow>
        (\<exists>name parameter.
           getParentParamSlug scene schema = Some name \<and>
           JObj parameter \<in> set (operationParameters operation) \<and>
           map_of parameter ''name'' = Some (JStr name) \<and>
           map_of parameter ''in'' = Some (JStr ''query'') \<and>
           map_of parameter ''required'' = Some (JBool True)))"
proof -
  let ?security = "determineViewSecurity view scene schema"
  let ?child = "isViewInChildPage view scene"
  let ?slug = "if ?child then getParentParamSlug scene schema else None"
  from generatePathsForView_shape [OF assms, of scene schema] obtain operation where
    paths: "generatePathsForView view scene schema =
       [(''/scenes/'' @ s_key scene @ ''/views/'' @ v_key view @ ''/records'',
         JObj [(if v_type view \<noteq> ''form'' then ''get''
                else if v_action view = Some ''update'' then ''put'' else ''post'',
                JObj operation)])]"
    and op: "operation = generateViewGetOperation view scene schema ?security
          (''#/components/schemas/view_'' @ s_slug scene @ ''_'' @ v_key view) ?child ?slug \<or>
      operation = generateViewPostOperation view scene schema ?security
          (''#/components/schemas/view_'' @ s_slug scene @ ''_'' @ v_key view) ?child ?slug \<or>
      operation = generateViewPutOperation view scene schema ?security
          (''#/components/schemas/view_'' @ s_slug scene @ ''_'' @ v_key view) ?child ?slug"
    by blast
  note reads = view_operation_reads [OF op]
  have key: "''apiKey'' \<in> set (securitySchemes operation)"
    by (simp add: reads(1))
  have auth: "''viewAuth'' \<in> set (securitySchemes operation) \<and>
        ''401'' \<in> set (responseCodes operation)" if "?security = AUTHENTICATED"
    using that reads(2) by (simp add: reads(1))
  have param: "\<exists>name parameter.
           getParentParamSlug scene schema = Some name \<and>
           JObj parameter \<in> set (operationParameters operation) \<and>
           map_of parameter ''name'' = Some (JStr name) \<and>
           map_of parameter ''in'' = Some (JStr ''query'') \<and>
           map_of parameter ''required'' = Some (JBool True)" if child: "?child"
  proof -
    from child have c: "isChildPage scene" by (simp add: isViewInChildPage_def)
    let ?name = "the (s_parent scene) @ ''_id''"
    from reads(3) child parentIdParameters_child [OF c, of schema "s_name scene"]
    have "JObj (createParentIdParameter ?name (s_name scene))
            \<in> set (operationParameters operation)"
      by simp
    with getParentParamSlug_child [OF c, of schema] createParentIdParameter_reads
    show ?thesis by blast
  qed
  from paths key auth param show ?thesis by blast
qed

theorem generatePathsForView_one_operation_witness:
  "hasSourceObject exampleFormView \<and>
   determineViewSecurity exampleFormView exampleChildScene exampleApp2 = AUTHENTICATED \<and>
   isViewInChildPage exampleFormView exampleChildScene \<and>
   (\<exists>operation parameter.
      generatePathsForView exampleFormView exampleChildScene exampleApp2 =
        [(''/scenes/scene_2/views/view_2/records'', JObj [(''put'', JObj operation)])] \<and>
      ''apiKey'' \<in> set (securitySchemes operation) \<and>
      ''viewAuth'' \<in> set (securitySchemes operation) \<and>
      ''401'' \<in> set (responseCodes operation) \<and>
      JObj parameter \<in> set (operationParameters operation) \<and>
      map_of parameter ''name'' = Some (JStr ''projects_id'') \<and>
      map_of parameter ''in'' = Some (JStr ''query'') \<and>
      map_of parameter ''required'' = Some (JBool True))"
proof -
  have src: "hasSourceObject exampleFormView"
    by (simp add: hasSourceObject_def exampleFormView_def plainView_def object1Source_def)
  have view: "checkViewSecurity exampleFormView = None"
    by (simp add: checkViewSecurity_def exampleFormView_def plainView_def object1Source_def
        nonEmptyProfiles_def orEmpty_def toLowerCase_def toLowerChar_def securityKeywords_def)
  have scene: "checkSceneSecurity exampleChildScene = None"
    by (simp add: checkSceneSecurity_def exampleChildScene_def plainScene_def
        nonEmptyProfiles_def toLowerCase_def toLowerChar_def securityKeywords_def)
  have parent: "checkSceneSecurity exampleScene1 = None"
    by (simp add: checkSceneSecurity_def exampleScene1_def plainScene_def
        nonEmptyProfiles_def toLowerCase_def toLowerChar_def securityKeywords_def)
  have walk: "checkParentScenesSecurity exampleChildScene exampleApp2 {} = None"
    by (subst checkParentScenesSecurity.simps, subst checkParentScenesSecurity.simps)
       (simp add: exampleApp2_def appOf_def exampleChildScene_def exampleScene1_def
          plainScene_def strTruthy_def parent [unfolded exampleScene1_def plainScene_def])
  have sec: "determineViewSecurity exampleFormView exampleChildScene exampleApp2 = AUTHENTICATED"
    by (simp add: determineViewSecurity_def view scene walk)
       (simp add: exampleFormView_def plainView_def)
  have child: "isViewInChildPage exampleFormView exampleChildScene"
    by (simp add: isViewInChildPage_def isChildPage_def strTruthy_def exampleChildScene_def
        plainScene_def)
  have slug: "getParentParamSlug exampleChildScene exampleApp2 = Some ''projects_id''"
    using child
    by (simp add: getParentParamSlug_child isViewInChildPage_def)
       (simp add: exampleChildScene_def plainScene_def)
  have keys: "s_key exampleChildScene = ''scene_2''" "v_key exampleFormView = ''view_2''"
    "v_type exampleFormView = ''form''" "v_action exampleFormView = Some ''update''"
    by (simp_all add: exampleChildScene_def plainScene_def exampleFormView_def plainView_def)
  from generatePathsForView_one_operation [OF src, of exampleChildScene exampleApp2]
  show ?thesis
    unfolding keys using src sec child slug by auto
qed

section \<open>Views on an object that does not exist\<close>








section \<open>The assembled document\<close>

















end
